theory Spec2Isabelle
  imports Main
begin

section \<open>promlazy: Prometheus metrics that register on first use\<close>

text \<open>
  The package \<^verbatim>\<open>promlazy\<close> (file \<^verbatim>\<open>lazy.go\<close>) wraps the metric constructors of the
  Prometheus client library. A \<^verbatim>\<open>Factory\<close> collects the metrics it creates and hands
  them to its registerer in a single \<^verbatim>\<open>MustRegister\<close> call, guarded by a
  \<^verbatim>\<open>sync.Once\<close>, the first time \<^verbatim>\<open>Register\<close> runs; every mutating method of the
  proxies the factory returns calls \<^verbatim>\<open>Register\<close> before it forwards to the real metric.

  The embedding is sequential. Go objects that are shared by reference (registries,
  factories, the real metric objects) live in an explicit store, addressed by natural
  numbers; a method with a pointer receiver takes the address and the store and returns
  the store it leaves behind. A Go panic is a value: a call either \<open>Returns\<close> a store or
  \<open>Panics\<close> with an error and the store as the panic left it (a caller that recovers,
  like an HTTP handler, goes on in that store).
\<close>

subsection \<open>Outcomes of a call\<close>

datatype ('e, 's) outcome = Returns 's | Panics 'e 's

fun state_of :: "('e, 's) outcome \<Rightarrow> 's" where
  "state_of (Returns s) = s"
| "state_of (Panics e s) = s"

fun panicked :: "('e, 's) outcome \<Rightarrow> bool" where
  "panicked (Returns s) = False"
| "panicked (Panics e s) = True"

text \<open>Sequencing of two statements: the second runs only when the first returned.\<close>

fun andThen :: "('e, 's) outcome \<Rightarrow> ('s \<Rightarrow> ('e, 's) outcome) \<Rightarrow> ('e, 's) outcome" where
  "andThen (Returns s) k = k s"
| "andThen (Panics e s) k = Panics e s"

text \<open>
  What a call of the package can panic with: the Go runtime's error for a method call on
  a nil interface value, whatever the registerer's \<^verbatim>\<open>MustRegister\<close> panics with, or the
  panic of a constructor of the library on options it rejects.
\<close>

datatype 'e panic = NilDereference | RegistererPanic 'e | ConstructorPanic

text \<open>
  A call that returns a value (a typed constructor returns the proxy): it gives the
  value and the store, or it panics and leaves a store.
\<close>

datatype ('e, 'a, 's) result = Result 'a 's | Raised 'e 's

subsection \<open>The Prometheus client library, as far as the package uses it\<close>

text \<open>
  The package imports \<^verbatim>\<open>github.com/prometheus/client_golang/prometheus\<close>; the types and
  functions of this subsection belong to that library, not to the package, and are
  written down as far as \<^verbatim>\<open>lazy.go\<close> uses them.

  A real metric object is a \<^verbatim>\<open>prometheus.Collector\<close>: its address, its kind, and the
  options it was built from (they fix its identity and never change). The floating
  point arguments of metric methods are only ever passed on by this package, so their
  type is a parameter \<open>'v\<close>.
\<close>

datatype metric_kind = KCounter | KGauge | KSummary | KHistogram

record Opts =
  Name :: string
  Help :: string
  ConstLabels :: "(string \<times> string) list"

record Collector =
  ptr :: nat
  kind :: metric_kind
  opts :: Opts

text \<open>
  Modelled from the spec: the interfaces \<^verbatim>\<open>prometheus.Counter\<close>, \<^verbatim>\<open>Gauge\<close>, \<^verbatim>\<open>Summary\<close> and
  \<^verbatim>\<open>Histogram\<close> are declared in the library. Their mutating operations are, in the
  spec's words, "counter: increment, add-delta; gauge: set, increment, decrement,
  add-delta, subtract-delta, set-to-current-time; summary/histogram: observe-value"; the
  read-only or descriptor operations are those of the embedded interfaces \<^verbatim>\<open>Metric\<close>
  (\<^verbatim>\<open>Desc\<close>, \<^verbatim>\<open>Write\<close>) and \<^verbatim>\<open>Collector\<close> (\<^verbatim>\<open>Describe\<close>, and \<^verbatim>\<open>Collect\<close>, here \<open>CollectM\<close>).
  \<open>has_method k m\<close>: the interface of kind \<open>k\<close> has the method \<open>m\<close>.
\<close>

datatype 'v meth =
    Inc | Dec | Add 'v | Sub 'v | Set 'v | SetToCurrentTime | Observe 'v
  | Desc | Write | Describe | CollectM

fun mutating :: "'v meth \<Rightarrow> bool" where
  "mutating Desc = False"
| "mutating Write = False"
| "mutating Describe = False"
| "mutating CollectM = False"
| "mutating m = True"

fun has_method :: "metric_kind \<Rightarrow> 'v meth \<Rightarrow> bool" where
  "has_method k Desc = True"
| "has_method k Write = True"
| "has_method k Describe = True"
| "has_method k CollectM = True"
| "has_method KCounter Inc = True"
| "has_method KCounter (Add x) = True"
| "has_method KGauge (Set x) = True"
| "has_method KGauge Inc = True"
| "has_method KGauge Dec = True"
| "has_method KGauge (Add x) = True"
| "has_method KGauge (Sub x) = True"
| "has_method KGauge SetToCurrentTime = True"
| "has_method KSummary (Observe x) = True"
| "has_method KHistogram (Observe x) = True"
| "has_method k m = False"

subsection \<open>The store\<close>

type_synonym rref = nat
type_synonym fref = nat

text \<open>
  \<^verbatim>\<open>type Factory struct { r prometheus.Registerer; initOnce sync.Once; collectors []prometheus.Collector }\<close>.
  The field \<open>r\<close> is an interface value: \<open>None\<close> is \<^verbatim>\<open>nil\<close>, \<open>Some a\<close> is the registerer at
  address \<open>a\<close>. \<open>initOnce\<close> is the done flag of the \<^verbatim>\<open>sync.Once\<close>.
\<close>

record Factory =
  r :: "rref option"
  initOnce :: bool
  collectors :: "Collector list"

text \<open>
  The store: the state of every registerer (of a type \<open>'r\<close> that the registerer's
  implementation chooses), every \<^verbatim>\<open>Factory\<close> variable, and for every real metric object
  the method calls that have reached it through this package, oldest first (what the
  library itself does with a collector it was given is part of the registerer's state).
  \<open>next_ptr\<close> is the next free address for a metric object.
\<close>

record ('r, 'v) world =
  regs :: "rref \<Rightarrow> 'r"
  facs :: "fref \<Rightarrow> Factory"
  received :: "nat \<Rightarrow> 'v meth list"
  next_ptr :: nat

text \<open>
  Modelled from the spec: \<^verbatim>\<open>prometheus.NewCounter\<close>, \<^verbatim>\<open>NewGauge\<close>, \<^verbatim>\<open>NewSummary\<close> and
  \<^verbatim>\<open>NewHistogram\<close> are functions of the library. There is "no validation beyond what
  the underlying metric constructor performs (name format, label consistency)", and
  "invalid configuration fails immediately at construction time": which options the
  constructor of a kind accepts is the library's rule, taken here as the parameter
  \<open>valid\<close>. On options it rejects the constructor panics and nothing is created; on
  options it accepts it "creates the real metric object", a fresh object of the kind
  asked for, built from the options, that has received no call yet.
\<close>

type_synonym validation = "metric_kind \<Rightarrow> Opts \<Rightarrow> bool"

definition NewMetric :: "validation \<Rightarrow> metric_kind \<Rightarrow> Opts \<Rightarrow> ('r, 'v) world \<Rightarrow> ('e panic, Collector, ('r, 'v) world) result" where
  "NewMetric valid k opt s =
     (if valid k opt
      then Result \<lparr>ptr = next_ptr s, kind = k, opts = opt\<rparr>
             (s\<lparr>received := (received s)(next_ptr s := []), next_ptr := Suc (next_ptr s)\<rparr>)
      else Raised ConstructorPanic s)"

text \<open>
  Modelled from the spec: the methods of the real metric objects are the library's. A
  call is recorded, method and argument, at the object that receives it; what the
  library computes from it (the metric's value, or a panic of its own) is outside this
  package.
\<close>

definition Metric_call :: "Collector \<Rightarrow> 'v meth \<Rightarrow> ('r, 'v) world \<Rightarrow> ('r, 'v) world" where
  "Metric_call c m s = s\<lparr>received := (received s)(ptr c := received s (ptr c) @ [m])\<rparr>"

text \<open>
  \<^verbatim>\<open>prometheus.Registerer\<close> is an interface, so \<^verbatim>\<open>f.r.MustRegister\<close> is a dynamic call.
  The functions below take the implementation of \<^verbatim>\<open>MustRegister\<close> as the parameter
  \<open>mr\<close>: from the registerer's state and the collectors it is given, it returns or
  panics, and leaves a registerer state either way. The properties of the gate below
  hold for every such implementation.
\<close>

type_synonym ('e, 'r) MustRegister_impl = "'r \<Rightarrow> Collector list \<Rightarrow> ('e, 'r) outcome"

text \<open>
  Modelled from the spec: the registry (\<^verbatim>\<open>prometheus.Registry\<close>) is the library's. Its
  state is the list of the registered collectors, in registration order; this is what
  a gather reports. The identity of a metric is "name + labels".
\<close>

type_synonym Registry = "Collector list"

datatype error = DuplicateIdentity

definition identity :: "Collector \<Rightarrow> string \<times> (string \<times> string) set" where
  "identity c = (Name (opts c), set (ConstLabels (opts c)))"

text \<open>
  Modelled from the spec: the registry's collision check is the library's. A batch is
  rejected on a "duplicate metric identity across the batch or against
  already-registered metrics".
\<close>

definition conflict :: "Registry \<Rightarrow> Collector list \<Rightarrow> bool" where
  "conflict reg cs \<longleftrightarrow>
     \<not> distinct (map identity cs) \<or> (\<exists>c \<in> set cs. identity c \<in> identity ` set reg)"

text \<open>
  Modelled from the spec: \<^verbatim>\<open>MustRegister\<close> of the registry is the library's. It "accepts
  a set of metric objects and either accepts all or rejects the whole batch (e.g., on
  name collision), fatally".
\<close>

definition MustRegister :: "(error, Registry) MustRegister_impl" where
  "MustRegister reg cs =
     (if conflict reg cs then Panics DuplicateIdentity reg else Returns (reg @ cs))"

subsection \<open>The factory\<close>

text \<open>\<^verbatim>\<open>func With(r prometheus.Registerer) Factory { return Factory{r: r} }\<close>\<close>

definition With :: "rref option \<Rightarrow> Factory" where
  "With reg = \<lparr>r = reg, initOnce = False, collectors = []\<rparr>"

text \<open>\<^verbatim>\<open>prometheus.DefaultRegisterer\<close> is a package variable of the library: one fixed address.\<close>

definition DefaultRegisterer :: rref where
  "DefaultRegisterer = 0"

definition New :: Factory where
  "New = With (Some DefaultRegisterer)"

text \<open>
  \<^verbatim>\<open>func (f *Factory) init() { f.r.MustRegister(f.collectors...) }\<close>. The method call on
  \<^verbatim>\<open>f.r\<close> panics when \<^verbatim>\<open>f.r\<close> is nil; otherwise it is the registerer's \<^verbatim>\<open>MustRegister\<close>,
  whose panic is not recovered here.
\<close>

definition init :: "('e, 'r) MustRegister_impl \<Rightarrow> fref \<Rightarrow> ('r, 'v) world \<Rightarrow> ('e panic, ('r, 'v) world) outcome" where
  "init mr f s =
     (case r (facs s f) of
        None \<Rightarrow> Panics NilDereference s
      | Some a \<Rightarrow>
          (case mr (regs s a) (collectors (facs s f)) of
             Returns reg' \<Rightarrow> Returns (s\<lparr>regs := (regs s)(a := reg')\<rparr>)
           | Panics e reg' \<Rightarrow> Panics (RegistererPanic e) (s\<lparr>regs := (regs s)(a := reg')\<rparr>)))"

text \<open>
  \<^verbatim>\<open>sync.Once.Do\<close> (the one-shot gate) belongs to the Go standard library, not to the
  package. On the \<open>initOnce\<close> field of the factory at \<open>f\<close>: when the done flag is set it
  returns at once; otherwise it runs the function and sets the flag in a deferred
  statement, that is, also when the function panics (the documentation of
  \<^verbatim>\<open>sync.Once\<close>: "If f panics, Do considers it to have returned; future calls of Do
  return without calling f"). The mutex of \<^verbatim>\<open>sync.Once\<close> has no part in a sequential
  run.
\<close>

definition store_done :: "fref \<Rightarrow> ('r, 'v) world \<Rightarrow> ('r, 'v) world" where
  "store_done f s = s\<lparr>facs := (facs s)(f := (facs s f)\<lparr>initOnce := True\<rparr>)\<rparr>"

definition Do :: "fref \<Rightarrow> (('r, 'v) world \<Rightarrow> ('e panic, ('r, 'v) world) outcome) \<Rightarrow> ('r, 'v) world \<Rightarrow> ('e panic, ('r, 'v) world) outcome" where
  "Do f fn s =
     (if initOnce (facs s f) then Returns s
      else (case fn s of
              Returns s' \<Rightarrow> Returns (store_done f s')
            | Panics e s' \<Rightarrow> Panics e (store_done f s')))"

text \<open>\<^verbatim>\<open>func (f *Factory) Register() { f.initOnce.Do(f.init) }\<close>\<close>

definition Register :: "('e, 'r) MustRegister_impl \<Rightarrow> fref \<Rightarrow> ('r, 'v) world \<Rightarrow> ('e panic, ('r, 'v) world) outcome" where
  "Register mr f s = Do f (init mr f) s"

text \<open>
  \<^verbatim>\<open>func (f *Factory) NewCounter(opts prometheus.CounterOpts) prometheus.Counter {
    c := prometheus.NewCounter(opts); f.collectors = append(f.collectors, c); return lazyCounter{c, f} }\<close>
  and the same for \<^verbatim>\<open>NewGauge\<close>, \<^verbatim>\<open>NewSummary\<close> and \<^verbatim>\<open>NewHistogram\<close>. The proxy structs
  embed the real metric and the pointer to the factory. A panic of the library's
  constructor is not recovered: it leaves the method before the append.
\<close>

record lazyCounter =
  Counter :: Collector
  Factory :: fref

record lazyGauge =
  Gauge :: Collector
  Factory :: fref

record lazySummary =
  Summary :: Collector
  Factory :: fref

record lazyHistogram =
  Histogram :: Collector
  Factory :: fref

definition append_collector :: "fref \<Rightarrow> Collector \<Rightarrow> ('r, 'v) world \<Rightarrow> ('r, 'v) world" where
  "append_collector f c s =
     s\<lparr>facs := (facs s)(f := (facs s f)\<lparr>collectors := collectors (facs s f) @ [c]\<rparr>)\<rparr>"

definition NewCounter :: "validation \<Rightarrow> fref \<Rightarrow> Opts \<Rightarrow> ('r, 'v) world \<Rightarrow> ('e panic, lazyCounter, ('r, 'v) world) result" where
  "NewCounter valid f opt s =
     (case NewMetric valid KCounter opt s of
        Result c s' \<Rightarrow> Result \<lparr>Counter = c, Factory = f\<rparr> (append_collector f c s')
      | Raised e s' \<Rightarrow> Raised e s')"

definition NewGauge :: "validation \<Rightarrow> fref \<Rightarrow> Opts \<Rightarrow> ('r, 'v) world \<Rightarrow> ('e panic, lazyGauge, ('r, 'v) world) result" where
  "NewGauge valid f opt s =
     (case NewMetric valid KGauge opt s of
        Result c s' \<Rightarrow> Result \<lparr>Gauge = c, Factory = f\<rparr> (append_collector f c s')
      | Raised e s' \<Rightarrow> Raised e s')"

definition NewSummary :: "validation \<Rightarrow> fref \<Rightarrow> Opts \<Rightarrow> ('r, 'v) world \<Rightarrow> ('e panic, lazySummary, ('r, 'v) world) result" where
  "NewSummary valid f opt s =
     (case NewMetric valid KSummary opt s of
        Result c s' \<Rightarrow> Result \<lparr>Summary = c, Factory = f\<rparr> (append_collector f c s')
      | Raised e s' \<Rightarrow> Raised e s')"

definition NewHistogram :: "validation \<Rightarrow> fref \<Rightarrow> Opts \<Rightarrow> ('r, 'v) world \<Rightarrow> ('e panic, lazyHistogram, ('r, 'v) world) result" where
  "NewHistogram valid f opt s =
     (case NewMetric valid KHistogram opt s of
        Result c s' \<Rightarrow> Result \<lparr>Histogram = c, Factory = f\<rparr> (append_collector f c s')
      | Raised e s' \<Rightarrow> Raised e s')"

subsection \<open>The proxies\<close>

text \<open>
  Every method the package declares on a proxy has the same two statements, for example
  \<^verbatim>\<open>func (l lazyGauge) Set(x float64) { l.Factory.Register(); l.Gauge.Set(x) }\<close>.
\<close>

definition lazyCounter_Inc :: "('e, 'r) MustRegister_impl \<Rightarrow> lazyCounter \<Rightarrow> ('r, 'v) world \<Rightarrow> ('e panic, ('r, 'v) world) outcome" where
  "lazyCounter_Inc mr l s =
     andThen (Register mr (lazyCounter.Factory l) s) (\<lambda>s'. Returns (Metric_call (Counter l) Inc s'))"

definition lazyCounter_Add :: "('e, 'r) MustRegister_impl \<Rightarrow> lazyCounter \<Rightarrow> 'v \<Rightarrow> ('r, 'v) world \<Rightarrow> ('e panic, ('r, 'v) world) outcome" where
  "lazyCounter_Add mr l x s =
     andThen (Register mr (lazyCounter.Factory l) s) (\<lambda>s'. Returns (Metric_call (Counter l) (Add x) s'))"

definition lazyGauge_Set :: "('e, 'r) MustRegister_impl \<Rightarrow> lazyGauge \<Rightarrow> 'v \<Rightarrow> ('r, 'v) world \<Rightarrow> ('e panic, ('r, 'v) world) outcome" where
  "lazyGauge_Set mr l x s =
     andThen (Register mr (lazyGauge.Factory l) s) (\<lambda>s'. Returns (Metric_call (Gauge l) (Set x) s'))"

definition lazyGauge_Inc :: "('e, 'r) MustRegister_impl \<Rightarrow> lazyGauge \<Rightarrow> ('r, 'v) world \<Rightarrow> ('e panic, ('r, 'v) world) outcome" where
  "lazyGauge_Inc mr l s =
     andThen (Register mr (lazyGauge.Factory l) s) (\<lambda>s'. Returns (Metric_call (Gauge l) Inc s'))"

definition lazyGauge_Dec :: "('e, 'r) MustRegister_impl \<Rightarrow> lazyGauge \<Rightarrow> ('r, 'v) world \<Rightarrow> ('e panic, ('r, 'v) world) outcome" where
  "lazyGauge_Dec mr l s =
     andThen (Register mr (lazyGauge.Factory l) s) (\<lambda>s'. Returns (Metric_call (Gauge l) Dec s'))"

definition lazyGauge_Add :: "('e, 'r) MustRegister_impl \<Rightarrow> lazyGauge \<Rightarrow> 'v \<Rightarrow> ('r, 'v) world \<Rightarrow> ('e panic, ('r, 'v) world) outcome" where
  "lazyGauge_Add mr l x s =
     andThen (Register mr (lazyGauge.Factory l) s) (\<lambda>s'. Returns (Metric_call (Gauge l) (Add x) s'))"

definition lazyGauge_Sub :: "('e, 'r) MustRegister_impl \<Rightarrow> lazyGauge \<Rightarrow> 'v \<Rightarrow> ('r, 'v) world \<Rightarrow> ('e panic, ('r, 'v) world) outcome" where
  "lazyGauge_Sub mr l x s =
     andThen (Register mr (lazyGauge.Factory l) s) (\<lambda>s'. Returns (Metric_call (Gauge l) (Sub x) s'))"

definition lazyGauge_SetToCurrentTime :: "('e, 'r) MustRegister_impl \<Rightarrow> lazyGauge \<Rightarrow> ('r, 'v) world \<Rightarrow> ('e panic, ('r, 'v) world) outcome" where
  "lazyGauge_SetToCurrentTime mr l s =
     andThen (Register mr (lazyGauge.Factory l) s) (\<lambda>s'. Returns (Metric_call (Gauge l) SetToCurrentTime s'))"

definition lazySummary_Observe :: "('e, 'r) MustRegister_impl \<Rightarrow> lazySummary \<Rightarrow> 'v \<Rightarrow> ('r, 'v) world \<Rightarrow> ('e panic, ('r, 'v) world) outcome" where
  "lazySummary_Observe mr l x s =
     andThen (Register mr (lazySummary.Factory l) s) (\<lambda>s'. Returns (Metric_call (Summary l) (Observe x) s'))"

definition lazyHistogram_Observe :: "('e, 'r) MustRegister_impl \<Rightarrow> lazyHistogram \<Rightarrow> 'v \<Rightarrow> ('r, 'v) world \<Rightarrow> ('e panic, ('r, 'v) world) outcome" where
  "lazyHistogram_Observe mr l x s =
     andThen (Register mr (lazyHistogram.Factory l) s) (\<lambda>s'. Returns (Metric_call (Histogram l) (Observe x) s'))"

text \<open>
  A method call on a proxy value. Go resolves it by the method set of the struct: a
  method the package declares on the proxy type is the one that runs; any other method
  of the embedded interface is promoted, that is, it runs on the embedded real metric
  with nothing of the package in between.
\<close>

fun lazyCounter_call :: "('e, 'r) MustRegister_impl \<Rightarrow> lazyCounter \<Rightarrow> 'v meth \<Rightarrow> ('r, 'v) world \<Rightarrow> ('e panic, ('r, 'v) world) outcome" where
  "lazyCounter_call mr l Inc s = lazyCounter_Inc mr l s"
| "lazyCounter_call mr l (Add x) s = lazyCounter_Add mr l x s"
| "lazyCounter_call mr l m s = Returns (Metric_call (Counter l) m s)"

fun lazyGauge_call :: "('e, 'r) MustRegister_impl \<Rightarrow> lazyGauge \<Rightarrow> 'v meth \<Rightarrow> ('r, 'v) world \<Rightarrow> ('e panic, ('r, 'v) world) outcome" where
  "lazyGauge_call mr l (Set x) s = lazyGauge_Set mr l x s"
| "lazyGauge_call mr l Inc s = lazyGauge_Inc mr l s"
| "lazyGauge_call mr l Dec s = lazyGauge_Dec mr l s"
| "lazyGauge_call mr l (Add x) s = lazyGauge_Add mr l x s"
| "lazyGauge_call mr l (Sub x) s = lazyGauge_Sub mr l x s"
| "lazyGauge_call mr l SetToCurrentTime s = lazyGauge_SetToCurrentTime mr l s"
| "lazyGauge_call mr l m s = Returns (Metric_call (Gauge l) m s)"

fun lazySummary_call :: "('e, 'r) MustRegister_impl \<Rightarrow> lazySummary \<Rightarrow> 'v meth \<Rightarrow> ('r, 'v) world \<Rightarrow> ('e panic, ('r, 'v) world) outcome" where
  "lazySummary_call mr l (Observe x) s = lazySummary_Observe mr l x s"
| "lazySummary_call mr l m s = Returns (Metric_call (Summary l) m s)"

fun lazyHistogram_call :: "('e, 'r) MustRegister_impl \<Rightarrow> lazyHistogram \<Rightarrow> 'v meth \<Rightarrow> ('r, 'v) world \<Rightarrow> ('e panic, ('r, 'v) world) outcome" where
  "lazyHistogram_call mr l (Observe x) s = lazyHistogram_Observe mr l x s"
| "lazyHistogram_call mr l m s = Returns (Metric_call (Histogram l) m s)"

text \<open>A proxy of any of the four kinds, with its interface, its factory and its real metric.\<close>

datatype proxy =
    PCounter lazyCounter | PGauge lazyGauge | PSummary lazySummary | PHistogram lazyHistogram

fun iface :: "proxy \<Rightarrow> metric_kind" where
  "iface (PCounter l) = KCounter"
| "iface (PGauge l) = KGauge"
| "iface (PSummary l) = KSummary"
| "iface (PHistogram l) = KHistogram"

fun owner :: "proxy \<Rightarrow> fref" where
  "owner (PCounter l) = lazyCounter.Factory l"
| "owner (PGauge l) = lazyGauge.Factory l"
| "owner (PSummary l) = lazySummary.Factory l"
| "owner (PHistogram l) = lazyHistogram.Factory l"

fun wrapped :: "proxy \<Rightarrow> Collector" where
  "wrapped (PCounter l) = Counter l"
| "wrapped (PGauge l) = Gauge l"
| "wrapped (PSummary l) = Summary l"
| "wrapped (PHistogram l) = Histogram l"

fun proxy_call :: "('e, 'r) MustRegister_impl \<Rightarrow> proxy \<Rightarrow> 'v meth \<Rightarrow> ('r, 'v) world \<Rightarrow> ('e panic, ('r, 'v) world) outcome" where
  "proxy_call mr (PCounter l) m s = lazyCounter_call mr l m s"
| "proxy_call mr (PGauge l) m s = lazyGauge_call mr l m s"
| "proxy_call mr (PSummary l) m s = lazySummary_call mr l m s"
| "proxy_call mr (PHistogram l) m s = lazyHistogram_call mr l m s"

subsection \<open>Client programs\<close>

text \<open>
  A client of the package is a sequence of calls: \<open>Register\<close> on a factory, a typed
  constructor on a factory, or a method on a proxy. \<open>run\<close> performs them in order and
  goes on after a panic in the store the panic left (a client that recovers); the test
  \<^verbatim>\<open>TestLazy\<close> is such a sequence. \<open>dropped\<close> is the outcome of a call whose value the
  sequence does not use.
\<close>

fun dropped :: "('e, 'a, 's) result \<Rightarrow> ('e, 's) outcome" where
  "dropped (Result x s) = Returns s"
| "dropped (Raised e s) = Panics e s"


datatype 'v call =
    CallRegister fref
  | CallNew metric_kind fref Opts
  | CallMethod proxy "'v meth"

fun step :: "('e, 'r) MustRegister_impl \<Rightarrow> validation \<Rightarrow> 'v call \<Rightarrow> ('r, 'v) world \<Rightarrow> ('e panic, ('r, 'v) world) outcome" where
  "step mr valid (CallRegister f) s = Register mr f s"
| "step mr valid (CallNew KCounter f opt) s = dropped (NewCounter valid f opt s)"
| "step mr valid (CallNew KGauge f opt) s = dropped (NewGauge valid f opt s)"
| "step mr valid (CallNew KSummary f opt) s = dropped (NewSummary valid f opt s)"
| "step mr valid (CallNew KHistogram f opt) s = dropped (NewHistogram valid f opt s)"
| "step mr valid (CallMethod p m) s = proxy_call mr p m s"

fun run :: "('e, 'r) MustRegister_impl \<Rightarrow> validation \<Rightarrow> 'v call list \<Rightarrow> ('r, 'v) world \<Rightarrow> ('r, 'v) world" where
  "run mr valid [] s = s"
| "run mr valid (c # cs) s = run mr valid cs (state_of (step mr valid c s))"

text \<open>
  \<open>on_factory f c\<close>: the call \<open>c\<close> is made on the factory at \<open>f\<close> or on a proxy whose
  factory pointer is \<open>f\<close>. \<open>triggers c\<close>: the call is \<open>Register\<close> or a mutating method of
  the proxy's interface (for a counter \<open>Inc\<close> and \<open>Add\<close>; for a gauge \<open>Set\<close>, \<open>Inc\<close>,
  \<open>Dec\<close>, \<open>Add\<close>, \<open>Sub\<close> and \<open>SetToCurrentTime\<close>; for a summary and a histogram
  \<open>Observe\<close>).
\<close>

fun on_factory :: "fref \<Rightarrow> 'v call \<Rightarrow> bool" where
  "on_factory f (CallRegister g) = (g = f)"
| "on_factory f (CallNew k g opt) = (g = f)"
| "on_factory f (CallMethod p m) = (owner p = f)"

fun triggers :: "'v call \<Rightarrow> bool" where
  "triggers (CallRegister g) = True"
| "triggers (CallNew k g opt) = False"
| "triggers (CallMethod p m) = (has_method (iface p) m \<and> mutating m)"

text \<open>
  \<open>constructs valid f c\<close>: the call is a typed constructor on the factory at \<open>f\<close>, on
  options that the library accepts. \<open>any_panic mr valid cs s\<close>: one of the calls of \<open>cs\<close>,
  performed in order from \<open>s\<close>, panics.
\<close>

fun constructs :: "validation \<Rightarrow> fref \<Rightarrow> 'v call \<Rightarrow> bool" where
  "constructs valid f (CallNew k g opt) = (g = f \<and> valid k opt)"
| "constructs valid f c = False"

fun any_panic :: "('e, 'r) MustRegister_impl \<Rightarrow> validation \<Rightarrow> 'v call list \<Rightarrow> ('r, 'v) world \<Rightarrow> bool" where
  "any_panic mr valid [] s = False"
| "any_panic mr valid (c # cs) s =
     (panicked (step mr valid c s) \<or> any_panic mr valid cs (state_of (step mr valid c s)))"

text \<open>
  \<open>defined_on valid f cs\<close>: the metrics that the typed constructor calls on the factory
  at \<open>f\<close> in \<open>cs\<close> create (those with options the library accepts), in order, each by
  its kind and its options; \<open>def_of c\<close> is the kind and the options of the real metric
  \<open>c\<close>.
\<close>

fun defined_on :: "validation \<Rightarrow> fref \<Rightarrow> 'v call list \<Rightarrow> (metric_kind \<times> Opts) list" where
  "defined_on valid f [] = []"
| "defined_on valid f (CallNew k g opt # cs) =
     (if g = f \<and> valid k opt then (k, opt) # defined_on valid f cs else defined_on valid f cs)"
| "defined_on valid f (c # cs) = defined_on valid f cs"

definition def_of :: "Collector \<Rightarrow> metric_kind \<times> Opts" where
  "def_of c = (kind c, opts c)"

text \<open>
  Two properties of a store with registries of the kind above. \<open>allocated\<close>: every
  collector that a registry or a factory holds is a metric object that exists (its
  address is below \<open>next_ptr\<close>). \<open>unregistered f\<close>: no registry holds a collector of the
  factory at \<open>f\<close>, and no other factory holds one either.
\<close>

definition allocated :: "(Registry, 'v) world \<Rightarrow> bool" where
  "allocated s \<longleftrightarrow>
     (\<forall>a. \<forall>c \<in> set (regs s a). ptr c < next_ptr s) \<and>
     (\<forall>g. \<forall>c \<in> set (collectors (facs s g)). ptr c < next_ptr s)"

definition unregistered :: "fref \<Rightarrow> (Registry, 'v) world \<Rightarrow> bool" where
  "unregistered f s \<longleftrightarrow>
     (\<forall>a. set (collectors (facs s f)) \<inter> set (regs s a) = {}) \<and>
     (\<forall>g. g \<noteq> f \<longrightarrow> set (collectors (facs s f)) \<inter> set (collectors (facs s g)) = {})"

subsection \<open>The scenarios of the test and of the README\<close>

text \<open>
  For the scenarios, a validation that rejects exactly the options without a name. (The
  properties below hold for every validation.)
\<close>

definition accepts_named :: validation where
  "accepts_named k opt \<longleftrightarrow> Name opt \<noteq> []"

text \<open>
  The store at the start of \<^verbatim>\<open>TestLazy\<close>: the registry of \<^verbatim>\<open>prometheus.NewRegistry()\<close> is
  empty, the variable \<^verbatim>\<open>batch\<close> (at address 0) holds \<^verbatim>\<open>With(registry)\<close>, and no metric
  object exists. Then \<^verbatim>\<open>metric1 := batch.NewGauge(prometheus.GaugeOpts{Name: "my_metric_1"})\<close>
  and \<^verbatim>\<open>metric2 := batch.NewCounter(prometheus.CounterOpts{Name: "my_metric_2"})\<close>, and the
  first write \<^verbatim>\<open>metric1.Set(42)\<close>.
\<close>

definition TestLazy_registry :: rref where
  "TestLazy_registry = 1"

definition TestLazy_start :: "(Registry, int) world" where
  "TestLazy_start =
     \<lparr>regs = (\<lambda>a. []), facs = (\<lambda>a. With (Some TestLazy_registry)), received = (\<lambda>a. []), next_ptr = 0\<rparr>"

definition my_metric_1 :: Opts where
  "my_metric_1 = \<lparr>Name = ''my_metric_1'', Help = [], ConstLabels = []\<rparr>"

definition my_metric_2 :: Opts where
  "my_metric_2 = \<lparr>Name = ''my_metric_2'', Help = [], ConstLabels = []\<rparr>"

definition metric1 :: lazyGauge where
  "metric1 = \<lparr>Gauge = \<lparr>ptr = 0, kind = KGauge, opts = my_metric_1\<rparr>, Factory = 0\<rparr>"

definition metric2 :: lazyCounter where
  "metric2 = \<lparr>Counter = \<lparr>ptr = 1, kind = KCounter, opts = my_metric_2\<rparr>, Factory = 0\<rparr>"

definition TestLazy_defined :: "(Registry, int) world" where
  "TestLazy_defined =
     run MustRegister accepts_named
       [CallNew KGauge 0 my_metric_1, CallNew KCounter 0 my_metric_2] TestLazy_start"

definition TestLazy_written :: "(Registry, int) world" where
  "TestLazy_written = state_of (lazyGauge_Set MustRegister metric1 42 TestLazy_defined)"

text \<open>
  The later writes of \<^verbatim>\<open>TestLazy\<close> (\<^verbatim>\<open>metric1.Inc(); metric2.Inc(); metric2.Add(3); metric1.Dec()\<close>),
  and a counter that the test does not have: one created from \<^verbatim>\<open>batch\<close> after the first
  write.
\<close>

definition TestLazy_writes :: "int call list" where
  "TestLazy_writes =
     [CallMethod (PGauge metric1) Inc, CallMethod (PCounter metric2) Inc,
      CallMethod (PCounter metric2) (Add 3), CallMethod (PGauge metric1) Dec]"

definition late_metric :: lazyCounter where
  "late_metric = \<lparr>Counter = \<lparr>ptr = 2, kind = KCounter, opts = my_metric_2\<rparr>, Factory = 0\<rparr>"

text \<open>
  The example of the README's section on safety: \<^verbatim>\<open>metrics = promlazy.New()\<close> (at address
  0), and \<^verbatim>\<open>myMetric1\<close> and \<^verbatim>\<open>myMetric2\<close> are both
  \<^verbatim>\<open>metrics.NewGauge(prometheus.GaugeOpts{Name: "my_metric"})\<close>.
\<close>

definition README_start :: "(Registry, int) world" where
  "README_start = \<lparr>regs = (\<lambda>a. []), facs = (\<lambda>a. New), received = (\<lambda>a. []), next_ptr = 0\<rparr>"

definition my_metric :: Opts where
  "my_metric = \<lparr>Name = ''my_metric'', Help = [], ConstLabels = []\<rparr>"

definition myMetric1 :: lazyGauge where
  "myMetric1 = \<lparr>Gauge = \<lparr>ptr = 0, kind = KGauge, opts = my_metric\<rparr>, Factory = 0\<rparr>"

definition myMetric2 :: lazyGauge where
  "myMetric2 = \<lparr>Gauge = \<lparr>ptr = 1, kind = KGauge, opts = my_metric\<rparr>, Factory = 0\<rparr>"

definition README_defined :: "(Registry, int) world" where
  "README_defined =
     run MustRegister accepts_named
       [CallNew KGauge 0 my_metric, CallNew KGauge 0 my_metric] README_start"

text \<open>
  A factory without a registerer: the variable at address 0 holds \<^verbatim>\<open>With(nil)\<close> (the zero
  value \<^verbatim>\<open>Factory{}\<close> is the same), and no typed constructor has been called on it.
\<close>

definition With_nil_start :: "(Registry, int) world" where
  "With_nil_start =
     \<lparr>regs = (\<lambda>a. []), facs = (\<lambda>a. With None), received = (\<lambda>a. []), next_ptr = 0\<rparr>"

text \<open>Options that the validation of the scenarios rejects: no name.\<close>

definition unnamed :: Opts where
  "unnamed = \<lparr>Name = [], Help = [], ConstLabels = []\<rparr>"

section \<open>Properties\<close>

subsection \<open>The gate\<close>

lemma Register_fired: "initOnce (facs s f) \<Longrightarrow> Register mr f s = Returns s"
  by (simp add: Register_def Do_def)

lemma Register_unfired:
  "\<not> initOnce (facs s f) \<Longrightarrow> r (facs s f) = Some a \<Longrightarrow>
   Register mr f s =
     (case mr (regs s a) (collectors (facs s f)) of
        Returns reg' \<Rightarrow> Returns (store_done f (s\<lparr>regs := (regs s)(a := reg')\<rparr>))
      | Panics e reg' \<Rightarrow>
          Panics (RegistererPanic e) (store_done f (s\<lparr>regs := (regs s)(a := reg')\<rparr>)))"
  by (simp add: Register_def Do_def init_def split: outcome.splits)

lemma Register_nil:
  "\<not> initOnce (facs s f) \<Longrightarrow> r (facs s f) = None \<Longrightarrow>
   Register mr f s = Panics NilDereference (store_done f s)"
  by (simp add: Register_def Do_def init_def)

lemma Register_state:
  "state_of (Register mr f s) =
     (if initOnce (facs s f) then s
      else store_done f
        (case r (facs s f) of
           None \<Rightarrow> s
         | Some a \<Rightarrow>
             s\<lparr>regs := (regs s)(a := state_of (mr (regs s a) (collectors (facs s f))))\<rparr>))"
  by (simp add: Register_def Do_def init_def split: outcome.splits option.splits)

lemma Register_fires: "initOnce (facs (state_of (Register mr f s)) f)"
  by (simp add: Register_state store_done_def split: option.splits)

lemma Register_keeps_fired:
  "initOnce (facs s g) \<Longrightarrow> initOnce (facs (state_of (Register mr f s)) g)"
  by (simp add: Register_state store_done_def split: option.splits)

lemma Register_received: "received (state_of (Register mr f s)) = received s"
  by (simp add: Register_state store_done_def split: option.splits)

lemma Register_next_ptr: "next_ptr (state_of (Register mr f s)) = next_ptr s"
  by (simp add: Register_state store_done_def split: option.splits)

lemma Register_collectors:
  "collectors (facs (state_of (Register mr f s)) g) = collectors (facs s g)"
  by (simp add: Register_state store_done_def split: option.splits)

lemma Register_r: "r (facs (state_of (Register mr f s)) g) = r (facs s g)"
  by (simp add: Register_state store_done_def split: option.splits)

lemma Register_facs_other:
  "g \<noteq> f \<Longrightarrow> facs (state_of (Register mr f s)) g = facs s g"
  by (simp add: Register_state store_done_def split: option.splits)

subsection \<open>Method calls on proxies\<close>

lemma proxy_call_mutating:
  "has_method (iface p) m \<Longrightarrow> mutating m \<Longrightarrow>
   proxy_call mr p m s =
     andThen (Register mr (owner p) s) (\<lambda>s'. Returns (Metric_call (wrapped p) m s'))"
  by (cases p; cases m)
    (simp_all add: lazyCounter_Inc_def lazyCounter_Add_def lazyGauge_Set_def lazyGauge_Inc_def
      lazyGauge_Dec_def lazyGauge_Add_def lazyGauge_Sub_def lazyGauge_SetToCurrentTime_def
      lazySummary_Observe_def lazyHistogram_Observe_def)

lemma proxy_call_readonly:
  "\<not> mutating m \<Longrightarrow> proxy_call mr p m s = Returns (Metric_call (wrapped p) m s)"
  by (cases p; cases m) simp_all

lemma proxy_call_cases:
  "proxy_call mr p m s =
     andThen (Register mr (owner p) s) (\<lambda>s'. Returns (Metric_call (wrapped p) m s')) \<or>
   proxy_call mr p m s = Returns (Metric_call (wrapped p) m s)"
  by (cases p; cases m)
    (simp_all add: lazyCounter_Inc_def lazyCounter_Add_def lazyGauge_Set_def lazyGauge_Inc_def
      lazyGauge_Dec_def lazyGauge_Add_def lazyGauge_Sub_def lazyGauge_SetToCurrentTime_def
      lazySummary_Observe_def lazyHistogram_Observe_def)

lemma proxy_call_fired:
  "initOnce (facs s (owner p)) \<Longrightarrow> proxy_call mr p m s = Returns (Metric_call (wrapped p) m s)"
  using proxy_call_cases [of mr p m s] by (auto simp: Register_fired)

lemma proxy_call_not_trigger:
  "\<not> (has_method (iface p) m \<and> mutating m) \<Longrightarrow>
   proxy_call mr p m s = Returns (Metric_call (wrapped p) m s)"
  by (cases p; cases m) simp_all

subsection \<open>Steps of a client\<close>

lemma step_New:
  "step mr valid (CallNew k f opt) s =
     (if valid k opt
      then Returns (append_collector f \<lparr>ptr = next_ptr s, kind = k, opts = opt\<rparr>
             (s\<lparr>received := (received s)(next_ptr s := []), next_ptr := Suc (next_ptr s)\<rparr>))
      else Panics ConstructorPanic s)"
  by (cases k) (simp_all add: NewCounter_def NewGauge_def NewSummary_def NewHistogram_def
      NewMetric_def)

lemma step_New_panicked: "panicked (step mr valid (CallNew k f opt) s) = (\<not> valid k opt)"
  by (simp add: step_New)

lemma step_New_state:
  "regs (state_of (step mr valid (CallNew k f opt) s)) = regs s"
  "next_ptr (state_of (step mr valid (CallNew k f opt) s)) =
     (if valid k opt then Suc (next_ptr s) else next_ptr s)"
  "facs (state_of (step mr valid (CallNew k f opt) s)) =
     (if valid k opt
      then (facs s)(f := (facs s f)\<lparr>collectors :=
             collectors (facs s f) @ [\<lparr>ptr = next_ptr s, kind = k, opts = opt\<rparr>]\<rparr>)
      else facs s)"
  by (simp_all add: step_New append_collector_def)

lemma Metric_call_simps:
  "regs (Metric_call c m s) = regs s"
  "facs (Metric_call c m s) = facs s"
  "next_ptr (Metric_call c m s) = next_ptr s"
  by (simp_all add: Metric_call_def)

lemma step_fired:
  assumes "initOnce (facs s f)" "on_factory f c"
  shows "regs (state_of (step mr valid c s)) = regs s"
    and "initOnce (facs (state_of (step mr valid c s)) f)"
  using assms
  by (cases c; simp add: Register_fired proxy_call_fired Metric_call_simps step_New_state)+

lemma run_fired:
  assumes "initOnce (facs s f)" "\<forall>c \<in> set cs. on_factory f c"
  shows "regs (run mr valid cs s) = regs s \<and> initOnce (facs (run mr valid cs s) f)"
  using assms
proof (induction cs arbitrary: s)
  case Nil
  then show ?case by simp
next
  case (Cons c cs)
  then show ?case by (simp add: step_fired)
qed

lemma step_trigger_fires:
  assumes "on_factory f c" "triggers c"
  shows "initOnce (facs (state_of (step mr valid c s)) f)"
proof (cases c)
  case (CallRegister g)
  then show ?thesis using assms by (simp add: Register_fires)
next
  case (CallNew k g opt)
  then show ?thesis using assms by simp
next
  case (CallMethod p m)
  then have "proxy_call mr p m s =
      andThen (Register mr f s) (\<lambda>s'. Returns (Metric_call (wrapped p) m s'))"
    using assms by (simp add: proxy_call_mutating)
  then show ?thesis
    using CallMethod Register_fires [of mr f s]
    by (cases "Register mr f s") (simp_all add: Metric_call_simps)
qed

subsection \<open>A factory that no call has triggered\<close>

lemma proxy_call_facs:
  "facs (state_of (proxy_call mr p m s)) = facs (state_of (Register mr (owner p) s)) \<or>
   facs (state_of (proxy_call mr p m s)) = facs s"
  using proxy_call_cases [of mr p m s]
  by (cases "Register mr (owner p) s") (auto simp: Metric_call_simps)

lemma step_registerer: "r (facs (state_of (step mr valid c s)) f) = r (facs s f)"
proof (cases c)
  case (CallRegister g)
  then show ?thesis by (simp add: Register_r)
next
  case (CallNew k g opt)
  then show ?thesis by (simp add: step_New_state)
next
  case (CallMethod p m)
  then show ?thesis
    using proxy_call_facs [of mr p m s] by (auto simp: Register_r)
qed

lemma step_collectors:
  "map def_of (collectors (facs (state_of (step mr valid c s)) f)) =
     map def_of (collectors (facs s f)) @ defined_on valid f [c]"
proof (cases c)
  case (CallRegister g)
  then show ?thesis by (simp add: Register_collectors)
next
  case (CallNew k g opt)
  then show ?thesis by (simp add: step_New_state def_of_def)
next
  case (CallMethod p m)
  then show ?thesis
    using proxy_call_facs [of mr p m s] by (auto simp: Register_collectors)
qed

lemma step_unfired:
  assumes "\<not> initOnce (facs s f)" "\<not> (on_factory f c \<and> triggers c)"
  shows "\<not> initOnce (facs (state_of (step mr valid c s)) f)"
proof (cases c)
  case (CallRegister g)
  then show ?thesis using assms by (simp add: Register_facs_other)
next
  case (CallNew k g opt)
  then show ?thesis using assms by (auto simp: step_New_state)
next
  case (CallMethod p m)
  show ?thesis
  proof (cases "owner p = f")
    case True
    then have "proxy_call mr p m s = Returns (Metric_call (wrapped p) m s)"
      using assms(2) CallMethod by (simp add: proxy_call_not_trigger)
    then show ?thesis using CallMethod assms(1) by (simp add: Metric_call_simps)
  next
    case False
    then show ?thesis
      using CallMethod assms(1) proxy_call_facs [of mr p m s]
      by (auto simp: Register_facs_other)
  qed
qed

lemma defined_on_append: "defined_on valid f (cs @ ds) = defined_on valid f cs @ defined_on valid f ds"
  by (induction valid f cs rule: defined_on.induct) simp_all

lemma defined_on_Cons: "defined_on valid f (c # cs) = defined_on valid f [c] @ defined_on valid f cs"
  using defined_on_append [of valid f "[c]" cs] by simp

lemma run_quiet:
  assumes "\<not> initOnce (facs s f)" "\<forall>c \<in> set cs. \<not> (on_factory f c \<and> triggers c)"
  shows "\<not> initOnce (facs (run mr valid cs s) f) \<and>
         r (facs (run mr valid cs s) f) = r (facs s f) \<and>
         map def_of (collectors (facs (run mr valid cs s) f)) =
           map def_of (collectors (facs s f)) @ defined_on valid f cs"
  using assms
proof (induction cs arbitrary: s)
  case Nil
  then show ?case by simp
next
  case (Cons c cs)
  have "\<not> initOnce (facs (state_of (step mr valid c s)) f)"
    using Cons.prems by (simp add: step_unfired)
  then have "\<not> initOnce (facs (run mr valid cs (state_of (step mr valid c s))) f) \<and>
      r (facs (run mr valid cs (state_of (step mr valid c s))) f) = r (facs (state_of (step mr valid c s)) f) \<and>
      map def_of (collectors (facs (run mr valid cs (state_of (step mr valid c s))) f)) =
        map def_of (collectors (facs (state_of (step mr valid c s)) f)) @ defined_on valid f cs"
    using Cons.prems by (intro Cons.IH) simp_all
  then show ?case
    using defined_on_Cons [of valid f c cs] by (simp add: step_registerer step_collectors)
qed

lemma run_constructs:
  assumes "\<forall>c \<in> set cs. constructs valid f c"
  shows "\<not> any_panic mr valid cs s \<and> regs (run mr valid cs s) = regs s \<and>
         initOnce (facs (run mr valid cs s) f) = initOnce (facs s f) \<and>
         r (facs (run mr valid cs s) f) = r (facs s f)"
  using assms
proof (induction cs arbitrary: s)
  case Nil
  then show ?case by simp
next
  case (Cons c cs)
  from Cons.prems obtain k opt where c: "c = CallNew k f opt" and ok: "valid k opt"
    by (cases c) simp_all
  have rest: "\<forall>c \<in> set cs. constructs valid f c"
    using Cons.prems by simp
  show ?case
    using Cons.IH [OF rest, of "state_of (step mr valid c s)"] ok
    by (simp add: c step_New_panicked step_New_state)
qed

subsection \<open>The registry: what it holds exists, and what a quiet factory holds it does not hold\<close>

lemma conflict_Nil: "\<not> conflict reg []"
  by (simp add: conflict_def)

lemma MustRegister_panic_keeps: "MustRegister reg cs = Panics e reg' \<Longrightarrow> reg' = reg"
  by (simp add: MustRegister_def split: if_splits)

lemma MustRegister_state:
  "state_of (MustRegister reg cs) = (if conflict reg cs then reg else reg @ cs)"
  by (simp add: MustRegister_def)

lemma Register_regs_subset:
  "set (regs (state_of (Register MustRegister g s)) a) \<subseteq> set (regs s a) \<union> set (collectors (facs s g))"
  by (auto simp: Register_state store_done_def MustRegister_state split: option.splits)

lemma Register_allocated:
  assumes "allocated s"
  shows "allocated (state_of (Register MustRegister g s))"
proof -
  let ?s' = "state_of (Register MustRegister g s)"
  have "ptr c < next_ptr ?s'" if "c \<in> set (regs ?s' a)" for c a
    using that assms Register_regs_subset [of g s a]
    by (auto simp: allocated_def Register_next_ptr)
  moreover have "ptr c < next_ptr ?s'" if "c \<in> set (collectors (facs ?s' h))" for c h
    using that assms by (auto simp: allocated_def Register_next_ptr Register_collectors)
  ultimately show ?thesis
    by (simp add: allocated_def)
qed

lemma Metric_call_allocated: "allocated (Metric_call c m s) = allocated s"
  by (simp add: allocated_def Metric_call_simps)

lemma Metric_call_unregistered: "unregistered f (Metric_call c m s) = unregistered f s"
  by (simp add: unregistered_def Metric_call_simps)

lemma New_allocated:
  assumes "allocated s"
  shows "allocated (state_of (step mr valid (CallNew k g opt) s))"
proof (cases "valid k opt")
  case False
  then have "state_of (step mr valid (CallNew k g opt) s) = s"
    by (simp add: step_New)
  then show ?thesis using assms by simp
next
  case True
  let ?s' = "state_of (step mr valid (CallNew k g opt) s)"
  have old: "ptr c < Suc (next_ptr s)" if "c \<in> set (collectors (facs s h))" for c h
    using that assms by (auto simp: allocated_def less_Suc_eq)
  have "ptr c < next_ptr ?s'" if "c \<in> set (regs ?s' a)" for c a
    using that assms True by (auto simp: allocated_def step_New_state less_Suc_eq)
  moreover have "ptr c < next_ptr ?s'" if "c \<in> set (collectors (facs ?s' h))" for c h
    using that old True by (cases "h = g") (auto simp: step_New_state)
  ultimately show ?thesis
    by (simp add: allocated_def)
qed

lemma step_allocated:
  assumes "allocated s"
  shows "allocated (state_of (step MustRegister valid c s))"
proof (cases c)
  case (CallRegister g)
  then show ?thesis using assms by (simp add: Register_allocated)
next
  case (CallNew k g opt)
  then show ?thesis using New_allocated [OF assms] by simp
next
  case (CallMethod p m)
  from proxy_call_cases [of MustRegister p m s] show ?thesis
  proof
    assume "proxy_call MustRegister p m s =
      andThen (Register MustRegister (owner p) s) (\<lambda>s'. Returns (Metric_call (wrapped p) m s'))"
    then show ?thesis
      using CallMethod Register_allocated [OF assms, of "owner p"]
      by (cases "Register MustRegister (owner p) s") (simp_all add: Metric_call_allocated)
  next
    assume "proxy_call MustRegister p m s = Returns (Metric_call (wrapped p) m s)"
    then show ?thesis using CallMethod assms by (simp add: Metric_call_allocated)
  qed
qed

lemma Register_other_unregistered:
  assumes "unregistered f s" "g \<noteq> f"
  shows "unregistered f (state_of (Register MustRegister g s))"
proof -
  let ?s' = "state_of (Register MustRegister g s)"
  have "set (collectors (facs ?s' f)) \<inter> set (regs ?s' a) = {}" for a
  proof -
    have "set (collectors (facs s f)) \<inter> (set (regs s a) \<union> set (collectors (facs s g))) = {}"
      using assms by (auto simp: unregistered_def)
    then show ?thesis
      using Register_regs_subset [of g s a] by (auto simp: Register_collectors)
  qed
  moreover have "set (collectors (facs ?s' f)) \<inter> set (collectors (facs ?s' h)) = {}"
    if "h \<noteq> f" for h
    using that assms by (simp add: unregistered_def Register_collectors)
  ultimately show ?thesis
    by (simp add: unregistered_def)
qed

lemma New_unregistered:
  assumes "allocated s" "unregistered f s"
  shows "unregistered f (state_of (step mr valid (CallNew k g opt) s))"
proof (cases "valid k opt")
  case False
  then have "state_of (step mr valid (CallNew k g opt) s) = s"
    by (simp add: step_New)
  then show ?thesis using assms(2) by simp
next
  case True
  let ?s' = "state_of (step mr valid (CallNew k g opt) s)"
  let ?c = "\<lparr>ptr = next_ptr s, kind = k, opts = opt\<rparr>"
  have fresh_reg: "?c \<notin> set (regs s a)" for a
  proof
    assume "?c \<in> set (regs s a)"
    with assms(1) have "ptr ?c < next_ptr s"
      unfolding allocated_def by blast
    then show False by simp
  qed
  have fresh_fac: "?c \<notin> set (collectors (facs s h))" for h
  proof
    assume "?c \<in> set (collectors (facs s h))"
    with assms(1) have "ptr ?c < next_ptr s"
      unfolding allocated_def by blast
    then show False by simp
  qed
  have "set (collectors (facs ?s' f)) \<inter> set (regs ?s' a) = {}" for a
    using assms(2) fresh_reg [of a] True
    by (cases "f = g") (auto simp: unregistered_def step_New_state)
  moreover have "set (collectors (facs ?s' f)) \<inter> set (collectors (facs ?s' h)) = {}"
    if "h \<noteq> f" for h
  proof -
    have "set (collectors (facs s f)) \<inter> set (collectors (facs s h)) = {}"
      using that assms(2) by (simp add: unregistered_def)
    then show ?thesis
      using that fresh_fac [of h] fresh_fac [of f] True
      by (cases "f = g"; cases "h = g") (auto simp: step_New_state)
  qed
  ultimately show ?thesis
    by (simp add: unregistered_def)
qed

lemma step_unregistered:
  assumes "allocated s" "unregistered f s" "\<not> (on_factory f c \<and> triggers c)"
  shows "unregistered f (state_of (step MustRegister valid c s))"
proof (cases c)
  case (CallRegister g)
  then show ?thesis using assms by (simp add: Register_other_unregistered)
next
  case (CallNew k g opt)
  then show ?thesis using New_unregistered [OF assms(1,2)] by simp
next
  case (CallMethod p m)
  show ?thesis
  proof (cases "owner p = f")
    case True
    then have "proxy_call MustRegister p m s = Returns (Metric_call (wrapped p) m s)"
      using assms(3) CallMethod by (simp add: proxy_call_not_trigger)
    then show ?thesis
      using CallMethod assms(2) by (simp add: Metric_call_unregistered)
  next
    case False
    from proxy_call_cases [of MustRegister p m s] show ?thesis
    proof
      assume "proxy_call MustRegister p m s =
        andThen (Register MustRegister (owner p) s) (\<lambda>s'. Returns (Metric_call (wrapped p) m s'))"
      then show ?thesis
        using CallMethod Register_other_unregistered [OF assms(2) False]
        by (cases "Register MustRegister (owner p) s") (simp_all add: Metric_call_unregistered)
    next
      assume "proxy_call MustRegister p m s = Returns (Metric_call (wrapped p) m s)"
      then show ?thesis using CallMethod assms(2) by (simp add: Metric_call_unregistered)
    qed
  qed
qed

lemma run_unregistered:
  assumes "allocated s" "unregistered f s" "\<forall>c \<in> set cs. \<not> (on_factory f c \<and> triggers c)"
  shows "unregistered f (run MustRegister valid cs s)"
  using assms
proof (induction cs arbitrary: s)
  case Nil
  then show ?case by simp
next
  case (Cons c cs)
  then show ?case by (simp add: step_allocated step_unregistered)
qed

subsection \<open>The scenarios, evaluated\<close>

lemma TestLazy_start_allocated: "allocated TestLazy_start"
  by (simp add: allocated_def TestLazy_start_def With_def)

lemma TestLazy_defined_eq:
  "TestLazy_defined =
     \<lparr>regs = (\<lambda>a. []),
      facs = (\<lambda>a. With (Some TestLazy_registry))
        (0 := \<lparr>r = Some TestLazy_registry, initOnce = False,
           collectors = [\<lparr>ptr = 0, kind = KGauge, opts = my_metric_1\<rparr>,
                         \<lparr>ptr = 1, kind = KCounter, opts = my_metric_2\<rparr>]\<rparr>),
      received = (\<lambda>a. []), next_ptr = 2\<rparr>"
  by (simp add: TestLazy_defined_def step_New accepts_named_def my_metric_1_def my_metric_2_def
      TestLazy_start_def append_collector_def With_def fun_eq_iff numeral_2_eq_2)

lemma TestLazy_metric1:
  "NewGauge accepts_named 0 my_metric_1 TestLazy_start =
     Result metric1 (run MustRegister accepts_named [CallNew KGauge 0 my_metric_1] TestLazy_start)"
  by (simp add: NewGauge_def NewMetric_def accepts_named_def my_metric_1_def metric1_def
      TestLazy_start_def)

lemma TestLazy_metric2:
  "NewCounter accepts_named 0 my_metric_2
       (run MustRegister accepts_named [CallNew KGauge 0 my_metric_1] TestLazy_start) =
     Result metric2 TestLazy_defined"
  by (simp add: TestLazy_defined_def NewCounter_def NewGauge_def NewMetric_def accepts_named_def
      my_metric_1_def my_metric_2_def metric2_def TestLazy_start_def append_collector_def)

lemma TestLazy_no_conflict:
  "\<not> conflict [] [\<lparr>ptr = 0, kind = KGauge, opts = my_metric_1\<rparr>,
                   \<lparr>ptr = Suc 0, kind = KCounter, opts = my_metric_2\<rparr>]"
  by (simp add: conflict_def identity_def my_metric_1_def my_metric_2_def)

lemma TestLazy_Set_returns:
  "lazyGauge_Set MustRegister metric1 42 TestLazy_defined = Returns TestLazy_written"
  by (simp add: TestLazy_written_def lazyGauge_Set_def Register_def Do_def init_def
      TestLazy_defined_eq MustRegister_def TestLazy_no_conflict metric1_def)

lemma TestLazy_written_eq:
  "TestLazy_written =
     \<lparr>regs = (\<lambda>a. [])(TestLazy_registry :=
         [\<lparr>ptr = 0, kind = KGauge, opts = my_metric_1\<rparr>,
          \<lparr>ptr = 1, kind = KCounter, opts = my_metric_2\<rparr>]),
      facs = (\<lambda>a. With (Some TestLazy_registry))
        (0 := \<lparr>r = Some TestLazy_registry, initOnce = True,
           collectors = [\<lparr>ptr = 0, kind = KGauge, opts = my_metric_1\<rparr>,
                         \<lparr>ptr = 1, kind = KCounter, opts = my_metric_2\<rparr>]\<rparr>),
      received = (\<lambda>a. [])(0 := [Set 42]), next_ptr = 2\<rparr>"
  by (simp add: TestLazy_written_def lazyGauge_Set_def Register_def Do_def init_def
      TestLazy_defined_eq MustRegister_def TestLazy_no_conflict store_done_def Metric_call_def
      metric1_def)

lemma TestLazy_run_written:
  "run MustRegister accepts_named [CallMethod (PGauge metric1) (Set 42)] TestLazy_defined =
     TestLazy_written"
  by (simp add: TestLazy_written_def)

lemma TestLazy_late_metric:
  "NewCounter accepts_named 0 my_metric_2 TestLazy_written =
     Result late_metric
       (run MustRegister accepts_named [CallNew KCounter 0 my_metric_2] TestLazy_written)"
  by (simp add: NewCounter_def NewMetric_def accepts_named_def my_metric_2_def late_metric_def
      TestLazy_written_eq)

lemma README_defined_eq:
  "README_defined =
     \<lparr>regs = (\<lambda>a. []),
      facs = (\<lambda>a. New)
        (0 := \<lparr>r = Some DefaultRegisterer, initOnce = False,
           collectors = [\<lparr>ptr = 0, kind = KGauge, opts = my_metric\<rparr>,
                         \<lparr>ptr = Suc 0, kind = KGauge, opts = my_metric\<rparr>]\<rparr>),
      received = (\<lambda>a. []), next_ptr = 2\<rparr>"
  by (simp add: README_defined_def step_New accepts_named_def my_metric_def README_start_def
      append_collector_def New_def With_def fun_eq_iff numeral_2_eq_2)

lemma README_myMetric1:
  "NewGauge accepts_named 0 my_metric README_start =
     Result myMetric1 (run MustRegister accepts_named [CallNew KGauge 0 my_metric] README_start)"
  by (simp add: NewGauge_def NewMetric_def accepts_named_def my_metric_def myMetric1_def
      README_start_def)

lemma README_myMetric2:
  "NewGauge accepts_named 0 my_metric
       (run MustRegister accepts_named [CallNew KGauge 0 my_metric] README_start) =
     Result myMetric2 README_defined"
  by (simp add: README_defined_def NewGauge_def NewMetric_def accepts_named_def my_metric_def
      myMetric2_def README_start_def append_collector_def)

lemma README_unfired: "\<not> initOnce (facs README_defined 0)"
  by (simp add: README_defined_eq)

lemma README_registerer: "r (facs README_defined 0) = Some DefaultRegisterer"
  by (simp add: README_defined_eq)

lemma README_conflict:
  "conflict (regs README_defined DefaultRegisterer) (collectors (facs README_defined 0))"
  by (simp add: README_defined_eq conflict_def identity_def)

section \<open>The claims\<close>

text \<open>
  Claim C1. Take a factory whose gate has not fired (as \<open>With\<close> returns it), let any calls
  follow in which neither \<open>Register\<close> nor a mutating proxy method is called on this
  factory, and then make one call of a mutating method on any proxy of the factory. If
  that call returns, the factory has a registry, and that registry holds what it held
  just before the call followed by all collectors of the factory, in the order of
  their creation (one batch, appended as a whole); no other registry has changed. The
  collectors of the factory are the ones it had at the start and then, one for one, the
  metrics that the constructor calls on the factory created (a constructor call on
  options that the library rejects creates none): every metric the factory has created
  is registered, whichever metric the call was made on.
\<close>

theorem first_use_registers_whole_batch:
  assumes "\<not> initOnce (facs s0 f)"
    and "\<forall>c \<in> set cs. \<not> (on_factory f c \<and> triggers c)"
    and "owner p = f" "has_method (iface p) m" "mutating m"
    and "proxy_call MustRegister p m (run MustRegister valid cs s0) = Returns s'"
  shows "\<exists>a. r (facs s0 f) = Some a \<and>
           regs s' = (regs (run MustRegister valid cs s0))
             (a := regs (run MustRegister valid cs s0) a @ collectors (facs (run MustRegister valid cs s0) f)) \<and>
           map def_of (collectors (facs (run MustRegister valid cs s0) f)) =
             map def_of (collectors (facs s0 f)) @ defined_on valid f cs \<and>
           collectors (facs s' f) = collectors (facs (run MustRegister valid cs s0) f) \<and>
           set (collectors (facs s' f)) \<subseteq> set (regs s' a)"
proof -
  let ?s = "run MustRegister valid cs s0"
  have quiet: "\<not> initOnce (facs ?s f) \<and> r (facs ?s f) = r (facs s0 f) \<and>
      map def_of (collectors (facs ?s f)) = map def_of (collectors (facs s0 f)) @ defined_on valid f cs"
    using assms(1,2) by (rule run_quiet)
  have "andThen (Register MustRegister f ?s) (\<lambda>t. Returns (Metric_call (wrapped p) m t)) =
      Returns s'"
    using assms by (simp add: proxy_call_mutating)
  then obtain t where t: "Register MustRegister f ?s = Returns t"
    and s': "s' = Metric_call (wrapped p) m t"
    by (cases "Register MustRegister f ?s") auto
  have unfired: "\<not> initOnce (facs ?s f)"
    using quiet by simp
  obtain a where a: "r (facs ?s f) = Some a"
    using t unfired by (cases "r (facs ?s f)") (simp_all add: Register_nil)
  have ok: "\<not> conflict (regs ?s a) (collectors (facs ?s f))"
    using t unfired a by (auto simp: Register_unfired MustRegister_def split: if_splits)
  have "t = store_done f (?s\<lparr>regs := (regs ?s)(a := regs ?s a @ collectors (facs ?s f))\<rparr>)"
    using t unfired a ok by (simp add: Register_unfired MustRegister_def)
  moreover have "r (facs s0 f) = Some a"
    using a quiet by simp
  moreover have "map def_of (collectors (facs ?s f)) =
      map def_of (collectors (facs s0 f)) @ defined_on valid f cs"
    using quiet by simp
  ultimately show ?thesis
    by (simp add: s' Metric_call_simps store_done_def)
qed

theorem first_use_registers_whole_batch_witness:
  "\<not> initOnce (facs TestLazy_start 0) \<and> owner (PGauge metric1) = 0 \<and>
   has_method (iface (PGauge metric1)) (Set (42::int)) \<and> mutating (Set (42::int)) \<and>
   run MustRegister accepts_named [CallNew KGauge 0 my_metric_1, CallNew KCounter 0 my_metric_2]
     TestLazy_start = TestLazy_defined \<and>
   proxy_call MustRegister (PGauge metric1) (Set 42) TestLazy_defined = Returns TestLazy_written \<and>
   (\<exists>a. r (facs TestLazy_start 0) = Some a \<and>
      regs TestLazy_written =
        (regs TestLazy_defined)(a := regs TestLazy_defined a @ collectors (facs TestLazy_defined 0)) \<and>
      map def_of (collectors (facs TestLazy_defined 0)) =
        map def_of (collectors (facs TestLazy_start 0)) @
        defined_on accepts_named 0
          [CallNew KGauge 0 my_metric_1, CallNew KCounter 0 my_metric_2 :: int call] \<and>
      collectors (facs TestLazy_written 0) = collectors (facs TestLazy_defined 0) \<and>
      set (collectors (facs TestLazy_written 0)) \<subseteq> set (regs TestLazy_written a)) \<and>
   r (facs TestLazy_start 0) = Some TestLazy_registry \<and>
   collectors (facs TestLazy_defined 0) = [Gauge metric1, Counter metric2] \<and>
   regs TestLazy_defined TestLazy_registry = [] \<and>
   regs TestLazy_written TestLazy_registry = [Gauge metric1, Counter metric2]"
proof -
  have h1: "\<not> initOnce (facs TestLazy_start 0)"
    by (simp add: TestLazy_start_def With_def)
  have h2: "\<forall>c \<in> set [CallNew KGauge 0 my_metric_1, CallNew KCounter 0 my_metric_2 :: int call].
      \<not> (on_factory 0 c \<and> triggers c)"
    by simp
  have h3: "owner (PGauge metric1) = 0"
    by (simp add: metric1_def)
  have h4: "has_method (iface (PGauge metric1)) (Set (42::int))"
    by simp
  have h5: "mutating (Set (42::int))"
    by simp
  have h6: "proxy_call MustRegister (PGauge metric1) (Set 42)
      (run MustRegister accepts_named [CallNew KGauge 0 my_metric_1, CallNew KCounter 0 my_metric_2]
         TestLazy_start) = Returns TestLazy_written"
    by (simp only: TestLazy_defined_def [symmetric]) (simp add: TestLazy_Set_returns)
  note inst = first_use_registers_whole_batch [OF h1 h2 h3 h4 h5 h6,
      unfolded TestLazy_defined_def [symmetric]]
  have e0: "r (facs TestLazy_start 0) = Some TestLazy_registry"
    by (simp add: TestLazy_start_def With_def)
  have e1: "collectors (facs TestLazy_defined 0) = [Gauge metric1, Counter metric2]"
    by (simp add: TestLazy_defined_eq metric1_def metric2_def)
  have e2: "regs TestLazy_defined TestLazy_registry = []"
    by (simp add: TestLazy_defined_eq)
  have e3: "regs TestLazy_written TestLazy_registry = [Gauge metric1, Counter metric2]"
    by (simp add: TestLazy_written_eq metric1_def metric2_def)
  show ?thesis
    using inst h1 h3 h4 h5 h6 [unfolded TestLazy_defined_def [symmetric]] e0 e1 e2 e3
      TestLazy_defined_def [symmetric]
    by blast
qed

text \<open>
  Claim C2. Take a store in which every collector held by a registry or a factory
  exists, and a factory that has created nothing yet (as \<open>With\<close> returns it). After any
  sequence of calls in which no \<open>Register\<close> and no mutating method of a proxy is called on
  this factory (typed constructors on any factory, read-only methods, and any calls on
  other factories may occur), no registry holds a collector of this factory. Each typed
  constructor, when the library accepts the options, returns a proxy of its factory,
  appends the real metric that the proxy wraps to the \<open>collectors\<close> of the factory and
  leaves every registry as it was; when the library rejects the options it panics and
  leaves the store as it was.
\<close>

theorem constructors_do_not_register:
  assumes "allocated s" "collectors (facs s f) = []"
    and "\<forall>c \<in> set cs. \<not> (on_factory f c \<and> triggers c)"
  shows "(\<forall>a. set (collectors (facs (run MustRegister valid cs s) f)) \<inter>
              set (regs (run MustRegister valid cs s) a) = {}) \<and>
         (case NewCounter valid g opt t of
            Result l t' \<Rightarrow> valid KCounter opt \<and> lazyCounter.Factory l = g \<and>
              collectors (facs t' g) = collectors (facs t g) @ [Counter l] \<and> regs t' = regs t
          | Raised e t' \<Rightarrow> \<not> valid KCounter opt \<and> t' = t) \<and>
         (case NewGauge valid g opt t of
            Result l t' \<Rightarrow> valid KGauge opt \<and> lazyGauge.Factory l = g \<and>
              collectors (facs t' g) = collectors (facs t g) @ [Gauge l] \<and> regs t' = regs t
          | Raised e t' \<Rightarrow> \<not> valid KGauge opt \<and> t' = t) \<and>
         (case NewSummary valid g opt t of
            Result l t' \<Rightarrow> valid KSummary opt \<and> lazySummary.Factory l = g \<and>
              collectors (facs t' g) = collectors (facs t g) @ [Summary l] \<and> regs t' = regs t
          | Raised e t' \<Rightarrow> \<not> valid KSummary opt \<and> t' = t) \<and>
         (case NewHistogram valid g opt t of
            Result l t' \<Rightarrow> valid KHistogram opt \<and> lazyHistogram.Factory l = g \<and>
              collectors (facs t' g) = collectors (facs t g) @ [Histogram l] \<and> regs t' = regs t
          | Raised e t' \<Rightarrow> \<not> valid KHistogram opt \<and> t' = t)"
proof -
  have "unregistered f s"
    using assms(2) by (simp add: unregistered_def)
  then have "unregistered f (run MustRegister valid cs s)"
    using assms(1,3) by (simp add: run_unregistered)
  then have "\<forall>a. set (collectors (facs (run MustRegister valid cs s) f)) \<inter>
      set (regs (run MustRegister valid cs s) a) = {}"
    by (simp add: unregistered_def)
  then show ?thesis
    by (simp add: NewCounter_def NewGauge_def NewSummary_def NewHistogram_def NewMetric_def
        append_collector_def)
qed

theorem constructors_do_not_register_witness:
  "allocated TestLazy_start \<and> collectors (facs TestLazy_start 0) = [] \<and>
   run MustRegister accepts_named [CallNew KGauge 0 my_metric_1, CallNew KCounter 0 my_metric_2]
     TestLazy_start = TestLazy_defined \<and>
   (\<forall>a. set (collectors (facs TestLazy_defined 0)) \<inter> set (regs TestLazy_defined a) = {}) \<and>
   collectors (facs TestLazy_defined 0) = [Gauge metric1, Counter metric2] \<and>
   regs TestLazy_defined TestLazy_registry = [] \<and>
   (NewGauge accepts_named 0 my_metric_1 TestLazy_start
      :: (error panic, lazyGauge, (Registry, int) world) result) =
     Result metric1 (run MustRegister accepts_named [CallNew KGauge 0 my_metric_1] TestLazy_start) \<and>
   collectors (facs (run MustRegister accepts_named [CallNew KGauge 0 my_metric_1] TestLazy_start) 0) =
     collectors (facs TestLazy_start 0) @ [Gauge metric1] \<and>
   regs (run MustRegister accepts_named [CallNew KGauge 0 my_metric_1] TestLazy_start) =
     regs TestLazy_start \<and>
   (NewGauge accepts_named 0 unnamed TestLazy_start
      :: (error panic, lazyGauge, (Registry, int) world) result) =
     Raised ConstructorPanic TestLazy_start"
proof -
  have h1: "allocated TestLazy_start"
    by (rule TestLazy_start_allocated)
  have h2: "collectors (facs TestLazy_start 0) = []"
    by (simp add: TestLazy_start_def With_def)
  have h3: "\<forall>c \<in> set [CallNew KGauge 0 my_metric_1, CallNew KCounter 0 my_metric_2 :: int call].
      \<not> (on_factory 0 c \<and> triggers c)"
    by simp
  note inst = constructors_do_not_register [OF h1 h2 h3,
      where valid = accepts_named and g = 0 and opt = my_metric_1 and t = TestLazy_start,
      unfolded TestLazy_defined_def [symmetric], THEN conjunct1]
  have e1: "collectors (facs TestLazy_defined 0) = [Gauge metric1, Counter metric2]"
    by (simp add: TestLazy_defined_eq metric1_def metric2_def)
  have e2: "regs TestLazy_defined TestLazy_registry = []"
    by (simp add: TestLazy_defined_eq)
  have e3: "(NewGauge accepts_named 0 my_metric_1 TestLazy_start
        :: (error panic, lazyGauge, (Registry, int) world) result) =
      Result metric1 (run MustRegister accepts_named [CallNew KGauge 0 my_metric_1] TestLazy_start)"
    by (rule TestLazy_metric1)
  have e4: "collectors (facs (run MustRegister accepts_named [CallNew KGauge 0 my_metric_1]
        TestLazy_start) 0) = collectors (facs TestLazy_start 0) @ [Gauge metric1] \<and>
      regs (run MustRegister accepts_named [CallNew KGauge 0 my_metric_1] TestLazy_start) =
        regs TestLazy_start"
    by (simp add: step_New accepts_named_def my_metric_1_def metric1_def TestLazy_start_def
        append_collector_def With_def)
  have e5: "(NewGauge accepts_named 0 unnamed TestLazy_start
        :: (error panic, lazyGauge, (Registry, int) world) result) =
      Raised ConstructorPanic TestLazy_start"
    by (simp add: NewGauge_def NewMetric_def accepts_named_def unnamed_def)
  show ?thesis
    using inst h1 h2 e1 e2 e3 e4 e5 TestLazy_defined_def [symmetric] by blast
qed

text \<open>
  Claim C3. A call of a mutating method of the proxy's interface (counter: \<open>Inc\<close>, \<open>Add\<close>;
  gauge: \<open>Set\<close>, \<open>Inc\<close>, \<open>Dec\<close>, \<open>Add\<close>, \<open>Sub\<close>, \<open>SetToCurrentTime\<close>; summary and histogram:
  \<open>Observe\<close>) is \<open>Register\<close> on the proxy's factory followed by the same method, with the
  same argument, on the wrapped real metric. Afterwards the gate of that factory is
  fired, so no such method skips the trigger; and the real metric has received exactly
  this one call more, unless \<open>Register\<close> panicked, in which case it has received nothing.
\<close>

theorem mutating_call_registers_then_forwards:
  assumes "has_method (iface p) m" "mutating m"
  shows "proxy_call mr p m s =
           andThen (Register mr (owner p) s) (\<lambda>s'. Returns (Metric_call (wrapped p) m s')) \<and>
         initOnce (facs (state_of (proxy_call mr p m s)) (owner p)) \<and>
         received (state_of (proxy_call mr p m s)) =
           (if panicked (Register mr (owner p) s) then received s
            else (received s)(ptr (wrapped p) := received s (ptr (wrapped p)) @ [m]))"
proof -
  have eq: "proxy_call mr p m s =
      andThen (Register mr (owner p) s) (\<lambda>s'. Returns (Metric_call (wrapped p) m s'))"
    using assms by (rule proxy_call_mutating)
  show ?thesis
    using Register_fires [of mr "owner p" s] Register_received [of mr "owner p" s]
    by (cases "Register mr (owner p) s") (simp_all add: eq Metric_call_def)
qed

theorem mutating_call_registers_then_forwards_witness:
  "has_method (iface (PGauge metric1)) (Set (42::int)) \<and> mutating (Set (42::int)) \<and>
   proxy_call MustRegister (PGauge metric1) (Set 42) TestLazy_defined =
     andThen (Register MustRegister (owner (PGauge metric1)) TestLazy_defined)
       (\<lambda>s'. Returns (Metric_call (wrapped (PGauge metric1)) (Set 42) s')) \<and>
   initOnce (facs (state_of (proxy_call MustRegister (PGauge metric1) (Set 42) TestLazy_defined))
     (owner (PGauge metric1))) \<and>
   state_of (proxy_call MustRegister (PGauge metric1) (Set 42) TestLazy_defined) = TestLazy_written \<and>
   received TestLazy_defined 0 = [] \<and>
   received TestLazy_written 0 = [Set 42]"
proof -
  have h1: "has_method (iface (PGauge metric1)) (Set (42::int))"
    by simp
  have h2: "mutating (Set (42::int))"
    by simp
  note inst = mutating_call_registers_then_forwards [OF h1 h2, of MustRegister TestLazy_defined]
  have e1: "state_of (proxy_call MustRegister (PGauge metric1) (Set 42) TestLazy_defined) =
      TestLazy_written"
    by (simp add: TestLazy_written_def)
  have e2: "received TestLazy_defined 0 = []"
    by (simp add: TestLazy_defined_eq)
  have e3: "received TestLazy_written 0 = [Set 42]"
    by (simp add: TestLazy_written_eq)
  show ?thesis
    using inst h1 h2 e1 e2 e3 by blast
qed

text \<open>
  Claim C4. Once a call on the factory has run \<open>Register\<close> (an explicit \<open>Register\<close> or a
  mutating method of one of its proxies), then after any further calls on that factory
  and its proxies \<open>Register\<close> returns the store unchanged, and every registry is as the
  first call left it: nothing is registered again, so nothing is added and nothing is
  duplicated. (The first call need not even have succeeded.)
\<close>

theorem Register_idempotent:
  assumes "on_factory f c0" "triggers c0" "\<forall>c \<in> set cs. on_factory f c"
  shows "Register mr f (run mr valid (c0 # cs) s) = Returns (run mr valid (c0 # cs) s) \<and>
         regs (run mr valid (c0 # cs) s) = regs (run mr valid [c0] s)"
proof -
  have "initOnce (facs (state_of (step mr valid c0 s)) f)"
    using assms(1,2) by (rule step_trigger_fires)
  then show ?thesis
    using run_fired [of "state_of (step mr valid c0 s)" f cs mr valid] assms(3)
    by (simp add: Register_fired)
qed

theorem Register_idempotent_witness:
  "on_factory 0 (CallMethod (PGauge metric1) (Set (42::int))) \<and>
   triggers (CallMethod (PGauge metric1) (Set (42::int))) \<and>
   Register MustRegister 0
       (run MustRegister accepts_named (CallMethod (PGauge metric1) (Set 42) # TestLazy_writes) TestLazy_defined) =
     Returns (run MustRegister accepts_named (CallMethod (PGauge metric1) (Set 42) # TestLazy_writes) TestLazy_defined) \<and>
   regs (run MustRegister accepts_named (CallMethod (PGauge metric1) (Set 42) # TestLazy_writes) TestLazy_defined) =
     regs TestLazy_written \<and>
   regs TestLazy_written TestLazy_registry = [Gauge metric1, Counter metric2]"
proof -
  have h1: "on_factory 0 (CallMethod (PGauge metric1) (Set (42::int)))"
    by (simp add: metric1_def)
  have h2: "triggers (CallMethod (PGauge metric1) (Set (42::int)))"
    by simp
  have h3: "\<forall>c \<in> set TestLazy_writes. on_factory 0 c"
    by (simp add: TestLazy_writes_def metric1_def metric2_def)
  note inst = Register_idempotent [OF h1 h2 h3, of MustRegister accepts_named TestLazy_defined,
      unfolded TestLazy_run_written]
  have e1: "regs TestLazy_written TestLazy_registry = [Gauge metric1, Counter metric2]"
    by (simp add: TestLazy_written_eq metric1_def metric2_def)
  show ?thesis
    using inst h1 h2 e1 by blast
qed

text \<open>
  Claim C5. Take a factory whose gate has not fired, let typed constructors be called on
  it (on options that the library accepts), and suppose that the collectors the factory
  then holds conflict in its registry: two of them have the same identity (name and
  labels), or one of them has the identity of a collector that the registry already
  holds. Then none of the constructor calls has panicked and none has changed a
  registry: nothing is raised at construction. The first triggering call on the factory
  (\<open>Register\<close>, or a mutating method of any of its proxies) panics at that call, with the
  registry's error; it does not return as if nothing had happened. (With no constructor
  call at all, this is any factory whose collectors conflict already.)
\<close>

theorem conflict_panics_at_first_use:
  assumes "\<not> initOnce (facs s f)" "r (facs s f) = Some a"
    and "\<forall>c \<in> set cs. constructs valid f c"
    and "conflict (regs s a) (collectors (facs (run MustRegister valid cs s) f))"
    and "on_factory f c" "triggers c"
  shows "\<not> any_panic MustRegister valid cs s \<and>
         regs (run MustRegister valid cs s) = regs s \<and>
         step MustRegister valid c (run MustRegister valid cs s) =
           Panics (RegistererPanic DuplicateIdentity)
             (store_done f (run MustRegister valid cs s))"
proof -
  let ?s = "run MustRegister valid cs s"
  have built: "\<not> any_panic MustRegister valid cs s \<and> regs ?s = regs s \<and>
      initOnce (facs ?s f) = initOnce (facs s f) \<and> r (facs ?s f) = r (facs s f)"
    using assms(3) by (rule run_constructs)
  have unfired: "\<not> initOnce (facs ?s f)" and bound: "r (facs ?s f) = Some a"
    using assms(1,2) built by simp_all
  have clash: "conflict (regs ?s a) (collectors (facs ?s f))"
    using assms(4) built by simp
  have reg: "Register MustRegister f ?s =
      Panics (RegistererPanic DuplicateIdentity) (store_done f ?s)"
    using unfired bound clash by (simp add: Register_unfired MustRegister_def)
  have "step MustRegister valid c ?s =
      Panics (RegistererPanic DuplicateIdentity) (store_done f ?s)"
  proof (cases c)
    case (CallRegister g)
    then show ?thesis using assms(5) reg by simp
  next
    case (CallNew k' g' opt')
    then show ?thesis using assms(6) by simp
  next
    case (CallMethod p m)
    then show ?thesis using assms(5,6) reg by (simp add: proxy_call_mutating)
  qed
  then show ?thesis
    using built by simp
qed

theorem conflict_panics_at_first_use_witness:
  "\<not> initOnce (facs README_start 0) \<and>
   r (facs README_start 0) = Some DefaultRegisterer \<and>
   constructs accepts_named 0 (CallNew KGauge 0 my_metric :: int call) \<and>
   run MustRegister accepts_named [CallNew KGauge 0 my_metric, CallNew KGauge 0 my_metric]
     README_start = README_defined \<and>
   conflict (regs README_start DefaultRegisterer) (collectors (facs README_defined 0)) \<and>
   on_factory 0 (CallMethod (PGauge myMetric2) (Inc :: int meth)) \<and>
   triggers (CallMethod (PGauge myMetric2) (Inc :: int meth)) \<and>
   \<not> any_panic MustRegister accepts_named
       [CallNew KGauge 0 my_metric, CallNew KGauge 0 my_metric] README_start \<and>
   regs README_defined = regs README_start \<and>
   step MustRegister accepts_named (CallMethod (PGauge myMetric2) Inc) README_defined =
     Panics (RegistererPanic DuplicateIdentity) (store_done 0 README_defined) \<and>
   (NewGauge accepts_named 0 my_metric
       (run MustRegister accepts_named [CallNew KGauge 0 my_metric] README_start)
      :: (error panic, lazyGauge, (Registry, int) world) result) =
     Result myMetric2 README_defined \<and>
   collectors (facs README_defined 0) = [Gauge myMetric1, Gauge myMetric2] \<and>
   identity (Gauge myMetric1) = identity (Gauge myMetric2)"
proof -
  have h1: "\<not> initOnce (facs README_start 0)"
    by (simp add: README_start_def New_def With_def)
  have h2: "r (facs README_start 0) = Some DefaultRegisterer"
    by (simp add: README_start_def New_def With_def)
  have e0: "constructs accepts_named 0 (CallNew KGauge 0 my_metric :: int call)"
    by (simp add: accepts_named_def my_metric_def)
  have h3: "\<forall>c \<in> set [CallNew KGauge 0 my_metric, CallNew KGauge 0 my_metric :: int call].
      constructs accepts_named 0 c"
    using e0 by simp
  have h4: "conflict (regs README_start DefaultRegisterer)
      (collectors (facs (run MustRegister accepts_named
         [CallNew KGauge 0 my_metric, CallNew KGauge 0 my_metric] README_start) 0))"
    using README_conflict
    by (simp only: README_defined_def [symmetric]) (simp add: README_defined_eq README_start_def)
  have h5: "on_factory 0 (CallMethod (PGauge myMetric2) (Inc :: int meth))"
    by (simp add: myMetric2_def)
  have h6: "triggers (CallMethod (PGauge myMetric2) (Inc :: int meth))"
    by simp
  note inst = conflict_panics_at_first_use [OF h1 h2 h3 h4 h5 h6,
      unfolded README_defined_def [symmetric]]
  have e1: "collectors (facs README_defined 0) = [Gauge myMetric1, Gauge myMetric2]"
    by (simp add: README_defined_eq myMetric1_def myMetric2_def)
  have e3: "(NewGauge accepts_named 0 my_metric
        (run MustRegister accepts_named [CallNew KGauge 0 my_metric] README_start)
        :: (error panic, lazyGauge, (Registry, int) world) result) =
      Result myMetric2 README_defined"
    by (rule README_myMetric2)
  have e4: "identity (Gauge myMetric1) = identity (Gauge myMetric2)"
    by (simp add: identity_def myMetric1_def myMetric2_def)
  show ?thesis
    using inst h1 h2 h4 [unfolded README_defined_def [symmetric]] h5 h6 e0 e1 e3 e4
      README_defined_def [symmetric]
    by blast
qed

text \<open>
  Claim C6. Once the gate of a factory has fired, a typed constructor (of any of the four
  kinds) on that factory still appends the metric it creates to \<open>collectors\<close> (on options
  that the library rejects it creates and appends nothing); and after any further calls
  on the factory and its proxies, \<open>Register\<close> and mutating methods of the new metric's own
  proxy included, every registry is as it was before the constructor ran: the new metric
  is never registered.
\<close>

theorem created_after_firing_never_registered:
  assumes "initOnce (facs s f)" "\<forall>c \<in> set cs. on_factory f c"
  shows "collectors (facs (state_of (step mr valid (CallNew k f opt) s)) f) =
           (if valid k opt
            then collectors (facs s f) @ [\<lparr>ptr = next_ptr s, kind = k, opts = opt\<rparr>]
            else collectors (facs s f)) \<and>
         regs (run mr valid (CallNew k f opt # cs) s) = regs s"
proof -
  have "initOnce (facs (state_of (step mr valid (CallNew k f opt) s)) f)"
    using assms(1) by (simp add: step_fired)
  then have "regs (run mr valid cs (state_of (step mr valid (CallNew k f opt) s))) =
      regs (state_of (step mr valid (CallNew k f opt) s))"
    using assms(2) by (simp add: run_fired)
  then show ?thesis
    by (simp add: step_New_state)
qed

theorem created_after_firing_never_registered_witness:
  "initOnce (facs TestLazy_written 0) \<and> accepts_named KCounter my_metric_2 \<and>
   collectors (facs (state_of (step MustRegister accepts_named (CallNew KCounter 0 my_metric_2)
       TestLazy_written)) 0) =
     (if accepts_named KCounter my_metric_2
      then collectors (facs TestLazy_written 0) @
        [\<lparr>ptr = next_ptr TestLazy_written, kind = KCounter, opts = my_metric_2\<rparr>]
      else collectors (facs TestLazy_written 0)) \<and>
   regs (run MustRegister accepts_named
       (CallNew KCounter 0 my_metric_2 #
          [CallRegister 0, CallMethod (PCounter late_metric) Inc, CallMethod (PGauge metric1) Inc])
       TestLazy_written) = regs TestLazy_written \<and>
   (NewCounter accepts_named 0 my_metric_2 TestLazy_written
      :: (error panic, lazyCounter, (Registry, int) world) result) =
     Result late_metric
       (run MustRegister accepts_named [CallNew KCounter 0 my_metric_2] TestLazy_written) \<and>
   Counter late_metric = \<lparr>ptr = next_ptr TestLazy_written, kind = KCounter, opts = my_metric_2\<rparr> \<and>
   regs TestLazy_written TestLazy_registry = [Gauge metric1, Counter metric2]"
proof -
  have h1: "initOnce (facs TestLazy_written 0)"
    by (simp add: TestLazy_written_eq)
  have h2: "\<forall>c \<in> set [CallRegister 0, CallMethod (PCounter late_metric) Inc,
      CallMethod (PGauge metric1) (Inc :: int meth)]. on_factory 0 c"
    by (simp add: late_metric_def metric1_def)
  note inst = created_after_firing_never_registered [OF h1 h2,
      of MustRegister accepts_named KCounter my_metric_2]
  have e0: "accepts_named KCounter my_metric_2"
    by (simp add: accepts_named_def my_metric_2_def)
  have e1: "Counter late_metric =
      \<lparr>ptr = next_ptr TestLazy_written, kind = KCounter, opts = my_metric_2\<rparr>"
    by (simp add: late_metric_def TestLazy_written_eq)
  have e2: "regs TestLazy_written TestLazy_registry = [Gauge metric1, Counter metric2]"
    by (simp add: TestLazy_written_eq metric1_def metric2_def)
  have e3: "(NewCounter accepts_named 0 my_metric_2 TestLazy_written
        :: (error panic, lazyCounter, (Registry, int) world) result) =
      Result late_metric
        (run MustRegister accepts_named [CallNew KCounter 0 my_metric_2] TestLazy_written)"
    by (rule TestLazy_late_metric)
  show ?thesis
    using inst h1 e0 e1 e2 e3 by blast
qed

text \<open>
  Claim C7. For a proxy of the factory and a mutating method of its interface: calling
  \<open>Register\<close> and then the method is the same as calling the method alone; \<open>Register\<close>
  alone leaves every registry and every factory exactly as the method call leaves them,
  and it panics exactly when the method call panics; and a second \<open>Register\<close> after the
  first returns the store unchanged.
\<close>

theorem explicit_Register_same_as_first_use:
  assumes "owner p = f" "has_method (iface p) m" "mutating m"
  shows "andThen (Register mr f s) (proxy_call mr p m) = proxy_call mr p m s \<and>
         regs (state_of (Register mr f s)) = regs (state_of (proxy_call mr p m s)) \<and>
         facs (state_of (Register mr f s)) = facs (state_of (proxy_call mr p m s)) \<and>
         panicked (Register mr f s) = panicked (proxy_call mr p m s) \<and>
         Register mr f (state_of (Register mr f s)) = Returns (state_of (Register mr f s))"
proof -
  have eq: "proxy_call mr p m t =
      andThen (Register mr f t) (\<lambda>s'. Returns (Metric_call (wrapped p) m s'))" for t
    using assms by (simp add: proxy_call_mutating)
  have again: "Register mr f (state_of (Register mr f s)) = Returns (state_of (Register mr f s))"
    by (simp add: Register_fired Register_fires)
  show ?thesis
    using again by (cases "Register mr f s") (simp_all add: eq Metric_call_simps)
qed

theorem explicit_Register_same_as_first_use_witness:
  "owner (PGauge metric1) = 0 \<and>
   has_method (iface (PGauge metric1)) (Set (42::int)) \<and> mutating (Set (42::int)) \<and>
   andThen (Register MustRegister 0 TestLazy_defined) (proxy_call MustRegister (PGauge metric1) (Set 42)) =
     proxy_call MustRegister (PGauge metric1) (Set 42) TestLazy_defined \<and>
   regs (state_of (Register MustRegister 0 TestLazy_defined)) =
     regs (state_of (proxy_call MustRegister (PGauge metric1) (Set 42) TestLazy_defined)) \<and>
   facs (state_of (Register MustRegister 0 TestLazy_defined)) =
     facs (state_of (proxy_call MustRegister (PGauge metric1) (Set 42) TestLazy_defined)) \<and>
   panicked (Register MustRegister 0 TestLazy_defined) =
     panicked (proxy_call MustRegister (PGauge metric1) (Set 42) TestLazy_defined) \<and>
   Register MustRegister 0 (state_of (Register MustRegister 0 TestLazy_defined)) =
     Returns (state_of (Register MustRegister 0 TestLazy_defined)) \<and>
   state_of (proxy_call MustRegister (PGauge metric1) (Set 42) TestLazy_defined) = TestLazy_written"
proof -
  have h1: "owner (PGauge metric1) = 0"
    by (simp add: metric1_def)
  have h2: "has_method (iface (PGauge metric1)) (Set (42::int))"
    by simp
  have h3: "mutating (Set (42::int))"
    by simp
  note inst = explicit_Register_same_as_first_use [OF h1 h2 h3, of MustRegister TestLazy_defined]
  have e1: "state_of (proxy_call MustRegister (PGauge metric1) (Set 42) TestLazy_defined) =
      TestLazy_written"
    by (simp add: TestLazy_written_def)
  show ?thesis
    using inst h1 h2 h3 e1 by blast
qed

text \<open>
  Claim C8. A method that is not mutating (\<open>Desc\<close>, \<open>Write\<close>, \<open>Describe\<close>, \<open>Collect\<close>) is
  not declared on any proxy type, so a call of it on a proxy is the promoted method of
  the embedded real metric: it runs on the wrapped metric only, and it leaves every
  factory (its gate and its collectors) and every registry as they were.
\<close>

theorem readonly_call_passes_through:
  assumes "\<not> mutating m"
  shows "proxy_call mr p m s = Returns (Metric_call (wrapped p) m s) \<and>
         facs (state_of (proxy_call mr p m s)) = facs s \<and>
         regs (state_of (proxy_call mr p m s)) = regs s"
  using assms by (simp add: proxy_call_readonly Metric_call_simps)

theorem readonly_call_passes_through_witness:
  "\<not> mutating (Desc :: int meth) \<and>
   proxy_call MustRegister (PGauge metric1) Desc TestLazy_defined =
     Returns (Metric_call (wrapped (PGauge metric1)) Desc TestLazy_defined) \<and>
   facs (state_of (proxy_call MustRegister (PGauge metric1) Desc TestLazy_defined)) =
     facs TestLazy_defined \<and>
   regs (state_of (proxy_call MustRegister (PGauge metric1) Desc TestLazy_defined)) =
     regs TestLazy_defined \<and>
   \<not> initOnce (facs TestLazy_defined 0)"
proof -
  have h1: "\<not> mutating (Desc :: int meth)"
    by simp
  note inst = readonly_call_passes_through [OF h1, of MustRegister "PGauge metric1" TestLazy_defined]
  have e1: "\<not> initOnce (facs TestLazy_defined 0)"
    by (simp add: TestLazy_defined_eq)
  show ?thesis
    using inst h1 e1 by blast
qed

text \<open>
  Claim C9. If \<open>Register\<close> panics (whatever the registerer and its reason, a nil
  registerer included), the gate of the factory is fired in the store the panic leaves.
  From then on, after any further calls on the factory and its proxies, every registry
  is as the panic left it, \<open>Register\<close> returns the store unchanged without panicking, and
  a mutating method of a proxy returns without panicking, having done nothing but call
  the wrapped real metric. (What a registerer holds after its own panic is the
  registerer's matter; the registry above holds what it held before, by
  \<open>MustRegister_panic_keeps\<close>, so there the metrics of the batch are as unregistered as
  they were.)
\<close>

theorem failed_Register_is_not_retried:
  assumes "Register mr f s = Panics e s1" "\<forall>c \<in> set cs. on_factory f c"
    and "owner p = f" "has_method (iface p) m" "mutating m"
  shows "initOnce (facs s1 f) \<and>
         regs (run mr valid cs s1) = regs s1 \<and>
         Register mr f (run mr valid cs s1) = Returns (run mr valid cs s1) \<and>
         proxy_call mr p m (run mr valid cs s1) = Returns (Metric_call (wrapped p) m (run mr valid cs s1))"
proof -
  have fired: "initOnce (facs s1 f)"
    using Register_fires [of mr f s] assms(1) by simp
  then have later: "regs (run mr valid cs s1) = regs s1 \<and> initOnce (facs (run mr valid cs s1) f)"
    using assms(2) by (rule run_fired)
  then show ?thesis
    using fired assms(3) by (simp add: Register_fired proxy_call_fired)
qed

theorem failed_Register_is_not_retried_witness:
  "Register MustRegister 0 README_defined =
     Panics (RegistererPanic DuplicateIdentity) (store_done 0 README_defined) \<and>
   owner (PGauge myMetric2) = 0 \<and>
   has_method (iface (PGauge myMetric2)) (Inc :: int meth) \<and> mutating (Inc :: int meth) \<and>
   initOnce (facs (store_done 0 README_defined) 0) \<and>
   regs (run MustRegister accepts_named [CallRegister 0, CallMethod (PGauge myMetric1) Inc]
       (store_done 0 README_defined)) = regs (store_done 0 README_defined) \<and>
   Register MustRegister 0
       (run MustRegister accepts_named [CallRegister 0, CallMethod (PGauge myMetric1) Inc]
          (store_done 0 README_defined)) =
     Returns (run MustRegister accepts_named [CallRegister 0, CallMethod (PGauge myMetric1) Inc]
          (store_done 0 README_defined)) \<and>
   proxy_call MustRegister (PGauge myMetric2) Inc
       (run MustRegister accepts_named [CallRegister 0, CallMethod (PGauge myMetric1) Inc]
          (store_done 0 README_defined)) =
     Returns (Metric_call (wrapped (PGauge myMetric2)) Inc
       (run MustRegister accepts_named [CallRegister 0, CallMethod (PGauge myMetric1) Inc]
          (store_done 0 README_defined))) \<and>
   regs (store_done 0 README_defined) DefaultRegisterer = []"
proof -
  have h1: "Register MustRegister 0 README_defined =
      Panics (RegistererPanic DuplicateIdentity) (store_done 0 README_defined)"
    using README_unfired README_registerer README_conflict
    by (simp add: Register_unfired MustRegister_def)
  have h2: "\<forall>c \<in> set [CallRegister 0, CallMethod (PGauge myMetric1) (Inc :: int meth)].
      on_factory 0 c"
    by (simp add: myMetric1_def)
  have h3: "owner (PGauge myMetric2) = 0"
    by (simp add: myMetric2_def)
  have h4: "has_method (iface (PGauge myMetric2)) (Inc :: int meth)"
    by simp
  have h5: "mutating (Inc :: int meth)"
    by simp
  note inst = failed_Register_is_not_retried [OF h1 h2 h3 h4 h5, of accepts_named]
  have e1: "regs (store_done 0 README_defined) DefaultRegisterer = []"
    by (simp add: store_done_def README_defined_eq)
  show ?thesis
    using inst h1 h3 h4 h5 e1 by blast
qed

text \<open>
  Claim C10, as the code has it. On a factory whose \<open>collectors\<close> are empty (as \<open>With\<close>
  leaves them, when no typed constructor has been called), \<open>Register\<close> panics only if the
  gate has not fired and the factory has no registerer (\<^verbatim>\<open>f.r\<close> is nil), and then with
  the nil dereference; on a factory bound to a registry it returns. In every case the
  gate is fired afterwards and every registry holds the registered collectors it held
  before.
\<close>

theorem Register_no_collectors:
  assumes "collectors (facs s f) = []"
  shows "panicked (Register MustRegister f s) = (\<not> initOnce (facs s f) \<and> r (facs s f) = None) \<and>
         initOnce (facs (state_of (Register MustRegister f s)) f) \<and>
         regs (state_of (Register MustRegister f s)) = regs s"
proof (cases "initOnce (facs s f)")
  case True
  then show ?thesis by (simp add: Register_fired)
next
  case False
  show ?thesis
  proof (cases "r (facs s f)")
    case None
    then show ?thesis using False by (simp add: Register_nil store_done_def)
  next
    case (Some a)
    then show ?thesis
      using False assms
      by (simp add: Register_unfired MustRegister_def conflict_Nil store_done_def)
  qed
qed

theorem Register_no_collectors_witness:
  "collectors (facs TestLazy_start 0) = [] \<and>
   r (facs TestLazy_start 0) = Some TestLazy_registry \<and>
   panicked (Register MustRegister 0 TestLazy_start) =
     (\<not> initOnce (facs TestLazy_start 0) \<and> r (facs TestLazy_start 0) = None) \<and>
   \<not> panicked (Register MustRegister 0 TestLazy_start) \<and>
   initOnce (facs (state_of (Register MustRegister 0 TestLazy_start)) 0) \<and>
   regs (state_of (Register MustRegister 0 TestLazy_start)) = regs TestLazy_start"
proof -
  have h1: "collectors (facs TestLazy_start 0) = []"
    by (simp add: TestLazy_start_def With_def)
  have e1: "r (facs TestLazy_start 0) = Some TestLazy_registry"
    by (simp add: TestLazy_start_def With_def)
  note inst = Register_no_collectors [OF h1]
  have e2: "\<not> panicked (Register MustRegister 0 TestLazy_start)"
    using inst e1 by simp
  show ?thesis
    using inst h1 e1 e2 by blast
qed

text \<open>
  The claim as the spec states it ("never raises") fails on a factory without a
  registerer: \<^verbatim>\<open>With(nil)\<close> has had no constructor called, and its \<open>Register\<close> panics.
\<close>

theorem Register_no_collectors_counterexample:
  "facs With_nil_start 0 = With None \<and>
   collectors (facs With_nil_start 0) = [] \<and>
   Register MustRegister 0 With_nil_start = Panics NilDereference (store_done 0 With_nil_start) \<and>
   panicked (Register MustRegister 0 With_nil_start)"
  by (simp add: With_nil_start_def With_def Register_def Do_def init_def)

end
